theory Spec2Isabelle
  imports Complex_Main "HOL-Library.Log_Nat"
begin

section \<open>Python values used by the quiz client\<close>

text \<open>
  The interactive game of \<^verbatim>\<open>src/cli/bijbelquiz_cli.py\<close> is embedded function by
  function. Python integers are unbounded and modelled as \<^typ>\<open>int\<close>. A string is a
  \<^typ>\<open>string\<close> whose characters are the code points 0 to 255, one \<^typ>\<open>char\<close> each (not
  bytes of an encoding); the character classes below are what \<^verbatim>\<open>str.strip\<close>, \<^verbatim>\<open>str.lower\<close>
  and \<^verbatim>\<open>int\<close> do on these code points. \<^verbatim>\<open>int(s)\<close> has the interpreter's default limit
  of 4300 digits. \<^verbatim>\<open>str(n)\<close> is used for list positions and for the counters of a session
  only, which stay far below that limit, and is total here.
\<close>

subsection \<open>\<^verbatim>\<open>str(n)\<close> for an integer\<close>

definition digit_char :: "nat \<Rightarrow> char" where
  "digit_char d = char_of (48 + d)"

fun str_nat :: "nat \<Rightarrow> string" where
  "str_nat n = (if n < 10 then [digit_char n] else str_nat (n div 10) @ [digit_char (n mod 10)])"

declare str_nat.simps [simp del]

definition py_str :: "int \<Rightarrow> string" where
  "py_str i = (if i < 0 then CHR ''-'' # str_nat (nat (- i)) else str_nat (nat i))"

subsection \<open>\<^verbatim>\<open>s.strip()\<close> and \<^verbatim>\<open>s.lower()\<close>\<close>

text \<open>The whitespace of \<^verbatim>\<open>str.strip\<close>: tab to carriage return, the four separators
  28 to 31, the space, NEL (133) and the no-break space (160).\<close>

definition is_space :: "char \<Rightarrow> bool" where
  "is_space c =
     (let k = (of_char c :: nat)
      in (9 \<le> k \<and> k \<le> 13) \<or> (28 \<le> k \<and> k \<le> 32) \<or> k = 133 \<or> k = 160)"

definition trim :: "(char \<Rightarrow> bool) \<Rightarrow> string \<Rightarrow> string" where
  "trim blank s = rev (dropWhile blank (rev (dropWhile blank s)))"

definition strip :: "string \<Rightarrow> string" where
  "strip s = trim is_space s"

text \<open>\<^verbatim>\<open>str.lower\<close>: the letters A to Z and the capital letters 192 to 222 (215, the
  multiplication sign, is none) move up by 32.\<close>

definition lower_char :: "char \<Rightarrow> char" where
  "lower_char c =
     (let k = (of_char c :: nat)
      in if (65 \<le> k \<and> k \<le> 90) \<or> (192 \<le> k \<and> k \<le> 222 \<and> k \<noteq> 215) then char_of (k + 32)
         else c)"

definition lower :: "string \<Rightarrow> string" where
  "lower s = map lower_char s"

subsection \<open>\<^verbatim>\<open>int(s)\<close> for a string\<close>

text \<open>
  \<^verbatim>\<open>int(s)\<close> strips surrounding whitespace, accepts one optional sign, and then needs
  decimal digits, where single underscores may stand between two digits. Its whitespace
  is not that of \<^verbatim>\<open>str.strip\<close>: the separators 28 to 31 are no whitespace for \<^verbatim>\<open>int\<close>. More
  than 4300 digits are refused. Every refusal is a \<^verbatim>\<open>ValueError\<close>, which is \<open>None\<close> here.
\<close>

definition is_int_space :: "char \<Rightarrow> bool" where
  "is_int_space c =
     (let k = (of_char c :: nat) in (9 \<le> k \<and> k \<le> 13) \<or> k = 32 \<or> k = 133 \<or> k = 160)"

definition max_str_digits :: nat where
  "max_str_digits = 4300"

definition is_digit :: "char \<Rightarrow> bool" where
  "is_digit c = (let k = (of_char c :: nat) in 48 \<le> k \<and> k \<le> 57)"

definition digit_val :: "char \<Rightarrow> nat" where
  "digit_val c = of_char c - 48"

fun parse_digits :: "nat \<Rightarrow> string \<Rightarrow> nat option" where
  "parse_digits acc [] = Some acc"
| "parse_digits acc (c # cs) =
     (if is_digit c then parse_digits (acc * 10 + digit_val c) cs
      else if c = CHR ''_'' then
        (case cs of
           [] \<Rightarrow> None
         | d # ds \<Rightarrow> if is_digit d then parse_digits (acc * 10 + digit_val d) ds else None)
      else None)"

definition parse_body :: "string \<Rightarrow> nat option" where
  "parse_body s =
     (case s of
        [] \<Rightarrow> None
      | c # cs \<Rightarrow> if is_digit c then parse_digits (digit_val c) cs else None)"

definition py_int_of_str :: "string \<Rightarrow> int option" where
  "py_int_of_str s =
     (case trim is_int_space s of
        [] \<Rightarrow> None
      | c # cs \<Rightarrow>
          if max_str_digits < length (filter is_digit (c # cs)) then None
          else if c = CHR ''-'' then map_option (\<lambda>n. - int n) (parse_body cs)
          else if c = CHR ''+'' then map_option int (parse_body cs)
          else map_option int (parse_body (c # cs)))"


subsection \<open>\<^verbatim>\<open>xs[i]\<close> on a list\<close>

datatype exc =
    SystemExit nat
  | KeyboardInterrupt
  | ValueError
  | IndexError
  | EOFError
  | AttributeError
  | OverflowError
  | MemoryError

definition is_Exception :: "exc \<Rightarrow> bool" where
  \<comment> \<open>the classes below \<^verbatim>\<open>Exception\<close>: \<^verbatim>\<open>SystemExit\<close> and \<^verbatim>\<open>KeyboardInterrupt\<close> derive
      from \<^verbatim>\<open>BaseException\<close> only\<close>
  "is_Exception e = (case e of SystemExit _ \<Rightarrow> False | KeyboardInterrupt \<Rightarrow> False | _ \<Rightarrow> True)"

text \<open>An index from 0 counts from the front, a negative one from the back; outside both
  ranges the read raises.\<close>

definition py_index :: "'a list \<Rightarrow> int \<Rightarrow> exc + 'a" where
  "py_index xs i =
     (if 0 \<le> i \<and> i < int (length xs) then Inr (xs ! nat i)
      else if i < 0 \<and> - int (length xs) \<le> i then Inr (xs ! nat (int (length xs) + i))
      else Inl IndexError)"

subsection \<open>Floating point\<close>

text \<open>
  A finite double is written \<open>(m, e)\<close> for the number \<open>m * 2 ^ e\<close>. \<open>round_double p q\<close>
  is the double nearest to the fraction \<open>p / q\<close> (for \<open>q > 0\<close>), ties to the even mantissa:
  53 bits of mantissa, and the smallest exponent \<open>- 1074\<close> for the subnormal numbers.
  Python's \<^verbatim>\<open>a / b\<close> on integers and its product of a double and an integer are
  correctly rounded, and so is the format \<^verbatim>\<open>.1f\<close>, which prints the decimal with one
  digit nearest to the double, ties to the even digit. Quotients beyond the largest
  double are not modelled: the quotient of the counters of a session is at most 1.
\<close>

definition round_half_even :: "int \<Rightarrow> int \<Rightarrow> int" where
  "round_half_even a b =
     (let q = a div b; r = a mod b
      in if 2 * r < b then q else if b < 2 * r then q + 1 else if even q then q else q + 1)"

definition floor_log2 :: "int \<Rightarrow> int \<Rightarrow> int" where
  \<comment> \<open>the exponent of the leading bit of \<open>p / q\<close>, for positive \<open>p\<close> and \<open>q\<close>\<close>
  "floor_log2 p q =
     (let d = bitlen p - bitlen q
      in if (if 0 \<le> d then q * 2 ^ nat d \<le> p else q \<le> p * 2 ^ nat (- d)) then d else d - 1)"

definition round_double :: "int \<Rightarrow> int \<Rightarrow> int \<times> int" where
  "round_double p q =
     (if p = 0 then (0, 0)
      else let e = max (floor_log2 \<bar>p\<bar> q - 52) (- 1074)
           in if e \<le> 0 then (round_half_even (p * 2 ^ nat (- e)) q, e)
              else (round_half_even p (q * 2 ^ nat e), e))"

definition true_divide :: "int \<Rightarrow> int \<Rightarrow> int \<times> int" where
  \<comment> \<open>\<^verbatim>\<open>c / n\<close> for integers, \<open>n > 0\<close>\<close>
  "true_divide c n = round_double c n"

definition times_100 :: "int \<times> int \<Rightarrow> int \<times> int" where
  \<comment> \<open>\<^verbatim>\<open>x * 100\<close> for a double \<open>x\<close>\<close>
  "times_100 x =
     (case x of (m, e) \<Rightarrow>
        if e \<le> 0 then round_double (100 * m) (2 ^ nat (- e))
        else round_double (100 * m * 2 ^ nat e) 1)"

definition tenths :: "int \<times> int \<Rightarrow> int" where
  \<comment> \<open>the magnitude of a double in tenths, rounded to the nearest, ties to even\<close>
  "tenths x =
     (case x of (m, e) \<Rightarrow>
        if e \<le> 0 then round_half_even (10 * \<bar>m\<bar>) (2 ^ nat (- e)) else 10 * \<bar>m\<bar> * 2 ^ nat e)"

definition show_tenths :: "bool \<Rightarrow> int \<Rightarrow> string" where
  "show_tenths negative t =
     (if negative then ''-'' else []) @ py_str (t div 10) @ ''.'' @ [digit_char (nat (t mod 10))]"

definition format_1f :: "int \<times> int \<Rightarrow> string" where
  \<comment> \<open>\<^verbatim>\<open>f"{x:.1f}"\<close>\<close>
  "format_1f x = show_tenths (fst x < 0) (tenths x)"

section \<open>Data model\<close>

text \<open>
  A question as the gateway delivers it (the keyword arguments of the dataclass
  \<^verbatim>\<open>QuizQuestion\<close>). The difficulty is the one field the code reads in two
  representations, a JSON number or a JSON string.
\<close>

datatype difficulty_repr = DInt int | DStr string

record question_data =
  question :: string
  correctAnswer :: string
  incorrectAnswers :: "string list"
  difficulty :: difficulty_repr
  qtype :: string
  categories :: "string list"
  biblicalReference :: string
  allOptions :: "string list"
  correctAnswerIndex :: int

text \<open>The counters of \<^verbatim>\<open>QuizGame\<close>, set by \<^verbatim>\<open>__init__\<close>.\<close>

record game =
  score :: int
  total_questions :: int
  correct_answers :: int
  stars_earned :: int

definition new_game :: game where
  "new_game = \<lparr>score = 0, total_questions = 0, correct_answers = 0, stars_earned = 0\<rparr>"

section \<open>The world outside the process\<close>

text \<open>
  What the user types, delivered one \<^verbatim>\<open>input()\<close> call at a time: a line, or Ctrl+C
  while the call waits. When the script is used up, standard input is at its end and
  \<^verbatim>\<open>input()\<close> raises \<^verbatim>\<open>EOFError\<close>.
\<close>

datatype input_ev = Line string | Interrupt

text \<open>The decoded body of the reply to \<^verbatim>\<open>GET questions\<close>, or the way the request failed.\<close>

datatype get_reply =
    GetJson "question_data list option"  \<comment> \<open>a JSON object; \<open>None\<close>: no key \<^verbatim>\<open>questions\<close>\<close>
  | GetHTTPError
  | GetURLError
  | GetOtherError

datatype post_json =
    PDict bool "string option"  \<comment> \<open>truth value of \<^verbatim>\<open>success\<close>, text of \<^verbatim>\<open>balance\<close> if present\<close>
  | PNotDict                    \<comment> \<open>valid JSON that is not an object\<close>

datatype post_reply =
    PostJson post_json
  | PostHTTPError
  | PostURLError
  | PostOtherError

datatype prompt = Choice_Prompt nat | Continue_Prompt

text \<open>What the process writes and sends, in order. Each event stands for the lines one
  group of \<^verbatim>\<open>print\<close> calls writes, with the values they interpolate.\<close>

datatype event =
    Say_Starting
  | Say_Loading
  | Http_Get string "(string \<times> string) list"
  | Say_No_Questions
  | Say_Loaded nat
  | Show_Score int int int int
  | Show_Question int string string "string list"
  | Show_Difficulty nat
  | Show_Choices "string list"
  | Ask prompt
  | Say_Please_Enter "string list"
  | Say_Interrupted_By_User
  | Say_Correct string int int
  | Say_Incorrect string string
  | Show_Reference string
  | Show_Summary int int string int int
  | Http_Post string int string
  | Say_New_Balance string
  | Warn_No_Update
  | Warn_No_Award
  | Say_Thanks
  | Say_Interrupted_Final
  | Say_Error_During_Game
  | Stderr_HTTP_Error
  | Stderr_URL_Error
  | Stderr_Unexpected_Error
  | Stderr_Cancelled
  | Stderr_Traceback

text \<open>
  \<open>sleeps\<close> says, for each coming \<^verbatim>\<open>time.sleep\<close> call, whether Ctrl+C arrives during
  it (none does once the list is used up). Interrupts are modelled at these two kinds of
  blocking call, \<^verbatim>\<open>input()\<close> and \<^verbatim>\<open>time.sleep\<close>. \<open>capacity\<close> is the length of the
  longest string the process has memory for. Writing to the terminal does not
  fail.
\<close>

record world =
  inputs :: "input_ev list"
  sleeps :: "bool list"
  capacity :: int
  get_reply :: get_reply
  post_reply :: post_reply
  trace :: "event list"

definition emit :: "event list \<Rightarrow> world \<Rightarrow> world" where
  "emit es w = w\<lparr>trace := trace w @ es\<rparr>"

definition py_sleep :: "world \<Rightarrow> (exc + unit) \<times> world" where
  "py_sleep w =
     (case sleeps w of
        [] \<Rightarrow> (Inr (), w)
      | b # bs \<Rightarrow> (if b then Inl KeyboardInterrupt else Inr (), w\<lparr>sleeps := bs\<rparr>))"

section \<open>The gateway client\<close>

text \<open>\<^verbatim>\<open>BijbelQuizAPI._get\<close> and \<^verbatim>\<open>_post\<close>: every failure of the request is printed to the
  diagnostic stream and followed by \<^verbatim>\<open>sys.exit(1)\<close>.\<close>

definition api_get :: "string \<Rightarrow> (string \<times> string) list \<Rightarrow> world
    \<Rightarrow> (exc + question_data list option) \<times> world" where
  "api_get endpoint params w =
     (let w1 = emit [Http_Get endpoint params] w in
      case get_reply w of
        GetJson r \<Rightarrow> (Inr r, w1)
      | GetHTTPError \<Rightarrow> (Inl (SystemExit 1), emit [Stderr_HTTP_Error] w1)
      | GetURLError \<Rightarrow> (Inl (SystemExit 1), emit [Stderr_URL_Error] w1)
      | GetOtherError \<Rightarrow> (Inl (SystemExit 1), emit [Stderr_Unexpected_Error] w1))"

definition api_post :: "string \<Rightarrow> int \<Rightarrow> string \<Rightarrow> world \<Rightarrow> (exc + post_json) \<times> world" where
  "api_post endpoint amount reason w =
     (let w1 = emit [Http_Post endpoint amount reason] w in
      case post_reply w of
        PostJson r \<Rightarrow> (Inr r, w1)
      | PostHTTPError \<Rightarrow> (Inl (SystemExit 1), emit [Stderr_HTTP_Error] w1)
      | PostURLError \<Rightarrow> (Inl (SystemExit 1), emit [Stderr_URL_Error] w1)
      | PostOtherError \<Rightarrow> (Inl (SystemExit 1), emit [Stderr_Unexpected_Error] w1))"

definition question_params :: "string option \<Rightarrow> int \<Rightarrow> int option \<Rightarrow> (string \<times> string) list" where
  \<comment> \<open>the \<^verbatim>\<open>params\<close> dictionary of \<^verbatim>\<open>get_questions\<close>: an empty category and a
      difficulty of 0 are left out, as \<^verbatim>\<open>None\<close> is\<close>
  "question_params category limit dif =
     [(''limit'', py_str limit)]
     @ (case category of None \<Rightarrow> [] | Some c \<Rightarrow> if c = [] then [] else [(''category'', c)])
     @ (case dif of None \<Rightarrow> [] | Some d \<Rightarrow> if d = 0 then [] else [(''difficulty'', py_str d)])"

definition get_questions :: "string option \<Rightarrow> int \<Rightarrow> int option \<Rightarrow> world
    \<Rightarrow> (exc + question_data list option) \<times> world" where
  "get_questions category limit dif w =
     api_get ''questions'' (question_params category limit dif) w"

definition add_stars :: "int \<Rightarrow> string \<Rightarrow> world \<Rightarrow> (exc + post_json) \<times> world" where
  "add_stars amount reason w = api_post ''stars/add'' amount reason w"

section \<open>The interactive game\<close>

subsection \<open>\<^verbatim>\<open>QuizGame.get_user_input\<close>\<close>

text \<open>
  The \<^verbatim>\<open>while True\<close> loop, by recursion on what is left of the typed script. It returns
  the answer or the exception, the unread rest of the script, and what it printed.
  Ctrl+C is caught inside the loop and turned into \<^verbatim>\<open>sys.exit(0)\<close>; \<^verbatim>\<open>EOFError\<close> is not
  caught here.
\<close>

fun input_loop :: "prompt \<Rightarrow> string list \<Rightarrow> input_ev list
    \<Rightarrow> (exc + string) \<times> input_ev list \<times> event list" where
  "input_loop p valid_choices [] = (Inl EOFError, [], [Ask p])"
| "input_loop p valid_choices (Interrupt # rest) =
     (Inl (SystemExit 0), rest, [Ask p, Say_Interrupted_By_User])"
| "input_loop p valid_choices (Line l # rest) =
     (let user_input = lower (strip l) in
      if valid_choices \<noteq> [] \<and> user_input \<notin> set valid_choices then
        (case input_loop p valid_choices rest of
           (r, rest', es) \<Rightarrow> (r, rest', Ask p # Say_Please_Enter valid_choices # es))
      else (Inr user_input, rest, [Ask p]))"

definition get_user_input :: "prompt \<Rightarrow> string list \<Rightarrow> world \<Rightarrow> (exc + string) \<times> world" where
  "get_user_input p valid_choices w =
     (case input_loop p valid_choices (inputs w) of
        (r, rest, es) \<Rightarrow> (r, emit es (w\<lparr>inputs := rest\<rparr>)))"

subsection \<open>\<^verbatim>\<open>QuizGame.display_question\<close>\<close>

definition coerce_difficulty :: "difficulty_repr \<Rightarrow> exc + int" where
  \<comment> \<open>\<^verbatim>\<open>int(d) if isinstance(d, str) else d\<close>\<close>
  "coerce_difficulty d =
     (case d of
        DInt n \<Rightarrow> Inr n
      | DStr s \<Rightarrow> (case py_int_of_str s of None \<Rightarrow> Inl ValueError | Some n \<Rightarrow> Inr n))"

text \<open>
  The string of stars is the literal of line 208, which has three characters, repeated
  \<open>d\<close> times; the model keeps the number of repetitions. A count that is no
  index-sized integer (64 bits) is an \<^verbatim>\<open>OverflowError\<close>, a count of zero or less gives
  the empty string, a result longer than the largest index is an \<^verbatim>\<open>OverflowError\<close> too,
  and a string the process has no memory for is a \<^verbatim>\<open>MemoryError\<close>.
\<close>

definition index_limit :: int where
  "index_limit = 2 ^ 63"

definition star_width :: int where
  "star_width = 3"

definition star_string :: "int \<Rightarrow> world \<Rightarrow> exc + nat" where
  "star_string d w =
     (if d < - index_limit \<or> index_limit \<le> d then Inl OverflowError
      else if d \<le> 0 then Inr 0
      else if (index_limit - 1) div d < star_width then Inl OverflowError
      else if capacity w < star_width * d then Inl MemoryError
      else Inr (nat d))"

definition display_question :: "question_data \<Rightarrow> game \<Rightarrow> world \<Rightarrow> (exc + unit) \<times> world" where
  "display_question q g w =
     (let w1 = emit [Show_Score (score g) (correct_answers g) (total_questions g) (stars_earned g),
                     Show_Question (total_questions g + 1) (question q)
                       (biblicalReference q) (categories q)] w
      in case coerce_difficulty (difficulty q) of
           Inl e \<Rightarrow> (Inl e, w1)
         | Inr d \<Rightarrow>
             (case star_string d w of
                Inl e \<Rightarrow> (Inl e, w1)
              | Inr n \<Rightarrow> (Inr (), emit [Show_Difficulty n, Show_Choices (allOptions q)] w1)))"

subsection \<open>\<^verbatim>\<open>QuizGame.play_round\<close>\<close>

definition valid_choices_of :: "question_data \<Rightarrow> string list" where
  \<comment> \<open>\<^verbatim>\<open>[str(i) for i in range(1, len(question.allOptions) + 1)]\<close>\<close>
  "valid_choices_of q = map py_str [1 .. int (length (allOptions q))]"

definition play_round :: "question_data \<Rightarrow> game \<Rightarrow> world \<Rightarrow> (exc + bool) \<times> game \<times> world" where
  "play_round q g w =
     (case display_question q g w of
        (Inl e, w1) \<Rightarrow> (Inl e, g, w1)
      | (Inr _, w1) \<Rightarrow>
     (case get_user_input (Choice_Prompt (length (allOptions q))) (valid_choices_of q) w1 of
        (Inl e, w2) \<Rightarrow> (Inl e, g, w2)
      | (Inr choice, w2) \<Rightarrow>
     (case py_int_of_str choice of
        None \<Rightarrow> (Inl ValueError, g, w2)
      | Some n \<Rightarrow>
     (let user_answer_index = n - 1 in
      case py_index (allOptions q) user_answer_index of
        Inl e \<Rightarrow> (Inl e, g, w2)
      | Inr user_answer \<Rightarrow>
     (let is_correct = (user_answer_index = correctAnswerIndex q) in
      case coerce_difficulty (difficulty q) of
        Inl e \<Rightarrow> (Inl e, g, w2)
      | Inr d \<Rightarrow>
     (let points = d * 10;
          stars = (if is_correct then d else 0);
          g1 = g\<lparr>total_questions := total_questions g + 1\<rparr>;
          g2 = (if is_correct
                then g1\<lparr>correct_answers := correct_answers g1 + 1,
                        score := score g1 + points,
                        stars_earned := stars_earned g1 + stars\<rparr>
                else g1);
          w3 = emit ((if is_correct then [Say_Correct user_answer points stars]
                      else [Say_Incorrect user_answer (correctAnswer q)])
                     @ (if biblicalReference q \<noteq> [] then [Show_Reference (biblicalReference q)]
                        else [])) w2
      in case py_sleep w3 of
           (Inl e, w4) \<Rightarrow> (Inl e, g2, w4)
         | (Inr _, w4) \<Rightarrow> (Inr is_correct, g2, w4)))))))"

subsection \<open>\<^verbatim>\<open>QuizGame.end_game\<close>\<close>

definition reward_reason :: "game \<Rightarrow> string" where
  "reward_reason g =
     ''Quiz game completed - '' @ py_str (correct_answers g) @ ''/''
       @ py_str (total_questions g) @ '' correct''"

text \<open>\<^verbatim>\<open>(correct_answers / total_questions * 100) if total_questions > 0 else 0\<close>; the
  integer 0 prints as the double zero does.\<close>

definition accuracy :: "game \<Rightarrow> int \<times> int" where
  "accuracy g =
     (if total_questions g > 0
      then times_100 (true_divide (correct_answers g) (total_questions g))
      else (0, 0))"

text \<open>
  The summary lines are one event, with the text of the accuracy as the third value. The
  request is made inside \<^verbatim>\<open>try ... except Exception\<close>, which lets \<^verbatim>\<open>SystemExit\<close> and
  \<^verbatim>\<open>KeyboardInterrupt\<close> pass.
\<close>

definition end_game :: "game \<Rightarrow> world \<Rightarrow> (exc + unit) \<times> world" where
  "end_game g w =
     (let w1 = emit [Show_Summary (total_questions g) (correct_answers g)
                       (format_1f (accuracy g)) (score g) (stars_earned g)] w
      in if stars_earned g > 0 then
           (case add_stars (stars_earned g) (reward_reason g) w1 of
              (Inr (PDict success balance), w2) \<Rightarrow>
                (Inr (), emit [if success
                               then Say_New_Balance (case balance of None \<Rightarrow> ''Unknown'' | Some b \<Rightarrow> b)
                               else Warn_No_Update, Say_Thanks] w2)
            | (Inr PNotDict, w2) \<Rightarrow> (Inr (), emit [Warn_No_Award, Say_Thanks] w2)
            | (Inl e, w2) \<Rightarrow>
                if is_Exception e then (Inr (), emit [Warn_No_Award, Say_Thanks] w2)
                else (Inl e, w2))
         else (Inr (), emit [Say_Thanks] w1))"

subsection \<open>\<^verbatim>\<open>QuizGame.start\<close>\<close>

definition continue_choices :: "string list" where
  "continue_choices = [''y'', ''n'', ''yes'', ''no'']"

text \<open>The \<^verbatim>\<open>for i, question_data in enumerate(questions, 1)\<close> loop; \<open>n\<close> is \<^verbatim>\<open>len(questions)\<close>.
  A \<^verbatim>\<open>break\<close> and the end of the list both leave the loop normally.\<close>

fun play_questions :: "nat \<Rightarrow> nat \<Rightarrow> question_data list \<Rightarrow> game \<Rightarrow> world
    \<Rightarrow> (exc + unit) \<times> game \<times> world" where
  "play_questions i n [] g w = (Inr (), g, w)"
| "play_questions i n (q # qs) g w =
     (case play_round q g w of
        (Inl e, g1, w1) \<Rightarrow> (Inl e, g1, w1)
      | (Inr is_correct, g1, w1) \<Rightarrow>
          if \<not> is_correct then
            if i < n then
              (case get_user_input Continue_Prompt continue_choices w1 of
                 (Inl e, w2) \<Rightarrow> (Inl e, g1, w2)
               | (Inr continue_game, w2) \<Rightarrow>
                   if continue_game \<in> set [''n'', ''no''] then (Inr (), g1, w2)
                   else play_questions (i + 1) n qs g1 w2)
            else play_questions (i + 1) n qs g1 w1
          else play_questions (i + 1) n qs g1 w1)"

text \<open>The loop and the call of \<^verbatim>\<open>end_game\<close> that follows it, from any point of the
  enumeration (\<^verbatim>\<open>start\<close> enters it with \<open>i = 1\<close> and all questions).\<close>

definition rounds_then_end :: "nat \<Rightarrow> nat \<Rightarrow> question_data list \<Rightarrow> game \<Rightarrow> world
    \<Rightarrow> (exc + unit) \<times> game \<times> world" where
  "rounds_then_end i n qs g w =
     (case play_questions i n qs g w of
        (Inl e, g1, w1) \<Rightarrow> (Inl e, g1, w1)
      | (Inr _, g1, w1) \<Rightarrow> (case end_game g1 w1 of (r, w2) \<Rightarrow> (r, g1, w2)))"

text \<open>The body of the \<^verbatim>\<open>try\<close> block of \<^verbatim>\<open>start\<close>.\<close>

definition start_body :: "string option \<Rightarrow> int option \<Rightarrow> int \<Rightarrow> game \<Rightarrow> world
    \<Rightarrow> (exc + unit) \<times> game \<times> world" where
  "start_body category dif num_questions g w =
     (case get_questions category num_questions dif (emit [Say_Loading] w) of
        (Inl e, w1) \<Rightarrow> (Inl e, g, w1)
      | (Inr None, w1) \<Rightarrow> (Inr (), g, emit [Say_No_Questions] w1)
      | (Inr (Some []), w1) \<Rightarrow> (Inr (), g, emit [Say_No_Questions] w1)
      | (Inr (Some (q # qs)), w1) \<Rightarrow>
          (let questions = q # qs in
           case py_sleep (emit [Say_Loaded (length questions)] w1) of
             (Inl e, w2) \<Rightarrow> (Inl e, g, w2)
           | (Inr _, w2) \<Rightarrow> rounds_then_end 1 (length questions) questions g w2))"

text \<open>\<^verbatim>\<open>start\<close>: the first pause is outside the \<^verbatim>\<open>try\<close>; the two handlers follow it.\<close>

definition start :: "string option \<Rightarrow> int option \<Rightarrow> int \<Rightarrow> game \<Rightarrow> world
    \<Rightarrow> (exc + unit) \<times> game \<times> world" where
  "start category dif num_questions g w =
     (case py_sleep (emit [Say_Starting] w) of
        (Inl e, w1) \<Rightarrow> (Inl e, g, w1)
      | (Inr _, w1) \<Rightarrow>
          (case start_body category dif num_questions g w1 of
             (Inr u, g1, w2) \<Rightarrow> (Inr u, g1, w2)
           | (Inl e, g1, w2) \<Rightarrow>
               if e = KeyboardInterrupt then
                 (case end_game g1 (emit [Say_Interrupted_Final] w2) of (r, w3) \<Rightarrow> (r, g1, w3))
               else if is_Exception e then (Inr (), g1, emit [Say_Error_During_Game] w2)
               else (Inl e, g1, w2)))"

subsection \<open>\<^verbatim>\<open>main\<close>, for the command \<^verbatim>\<open>game\<close>\<close>

text \<open>The exit status of the process: 0 after a normal return, the argument of
  \<^verbatim>\<open>sys.exit\<close>, and 1 after \<^verbatim>\<open>main\<close>'s handler for Ctrl+C or an uncaught exception.\<close>

definition main_game :: "string option \<Rightarrow> int option \<Rightarrow> int \<Rightarrow> world \<Rightarrow> nat \<times> game \<times> world" where
  "main_game category dif num_questions w =
     (case start category dif num_questions new_game w of
        (Inr _, g, w1) \<Rightarrow> (0, g, w1)
      | (Inl (SystemExit k), g, w1) \<Rightarrow> (k, g, w1)
      | (Inl KeyboardInterrupt, g, w1) \<Rightarrow> (1, g, emit [Stderr_Cancelled] w1)
      | (Inl _, g, w1) \<Rightarrow> (1, g, emit [Stderr_Traceback] w1))"

section \<open>Vocabulary of the properties\<close>

text \<open>The value of a digit string, read from the left.\<close>

definition digits_value :: "nat \<Rightarrow> string \<Rightarrow> nat" where
  "digits_value acc cs = foldl (\<lambda>a c. a * 10 + digit_val c) acc cs"

text \<open>The counters after a round that was answered, with difficulty \<open>d\<close> and outcome
  \<open>ok\<close>.\<close>

definition scored :: "int \<Rightarrow> bool \<Rightarrow> game \<Rightarrow> game" where
  "scored d ok g =
     (if ok then g\<lparr>total_questions := total_questions g + 1,
                   correct_answers := correct_answers g + 1,
                   score := score g + d * 10,
                   stars_earned := stars_earned g + d\<rparr>
      else g\<lparr>total_questions := total_questions g + 1\<rparr>)"

text \<open>A typed line that is no selection among \<open>n\<close> options: what was typed, the
  whitespace around it aside, is not a number for \<^verbatim>\<open>int\<close>, or is a number outside 1 to
  \<open>n\<close>.\<close>

definition invalid_selection :: "nat \<Rightarrow> string \<Rightarrow> bool" where
  "invalid_selection n l =
     (case py_int_of_str (strip l) of None \<Rightarrow> True | Some k \<Rightarrow> k < 1 \<or> int n < k)"

text \<open>Ctrl+C arrives during the next pause.\<close>

definition interrupted :: "world \<Rightarrow> bool" where
  "interrupted w = (case sleeps w of [] \<Rightarrow> False | b # _ \<Rightarrow> b)"

text \<open>The reward submissions among the events.\<close>

definition is_post :: "event \<Rightarrow> bool" where
  "is_post e = (case e of Http_Post _ _ _ \<Rightarrow> True | _ \<Rightarrow> False)"

definition posts :: "event list \<Rightarrow> event list" where
  "posts es = filter is_post es"

text \<open>The invariant of the counters: the score is ten times the stars, and no more
  answers are correct than rounds were played.\<close>

definition counters_ok :: "game \<Rightarrow> bool" where
  "counters_ok g = (score g = 10 * stars_earned g \<and> 0 \<le> correct_answers g
                    \<and> correct_answers g \<le> total_questions g)"

text \<open>The difficulty of a question, when it reads as an integer, is not negative (the
  gateway's levels are 1 to 5).\<close>

definition nonneg_difficulty :: "question_data \<Rightarrow> bool" where
  "nonneg_difficulty q = (case coerce_difficulty (difficulty q) of Inl _ \<Rightarrow> True | Inr d \<Rightarrow> 0 \<le> d)"



section \<open>Example data\<close>

text \<open>The question of the specification's round trip: four options, the third is the
  right one. \<open>typing\<close> is a world in which the user types the given lines.\<close>

definition four_options :: question_data where
  "four_options =
     \<lparr>question = ''Q'', correctAnswer = ''c'', incorrectAnswers = [''a'', ''b'', ''d''],
      difficulty = DInt 2, qtype = ''mc'', categories = [], biblicalReference = [],
      allOptions = [''a'', ''b'', ''c'', ''d''], correctAnswerIndex = 2\<rparr>"

definition typing :: "string list \<Rightarrow> world" where
  "typing ls = \<lparr>inputs = map Line ls, sleeps = [], capacity = 1000, get_reply = GetJson None,
                post_reply = PostJson PNotDict, trace = []\<rparr>"


text \<open>A world in which the gateway delivers the given questions, the user's terminal
  the given events, and the reward request gets the given reply.\<close>

definition session :: "question_data list \<Rightarrow> input_ev list \<Rightarrow> post_reply \<Rightarrow> world" where
  "session qs evs reply = \<lparr>inputs = evs, sleeps = [], capacity = 1000,
                           get_reply = GetJson (Some qs),
                           post_reply = reply, trace = []\<rparr>"

section \<open>Integers and their text\<close>

lemma of_char_digit_char: "d < 10 \<Longrightarrow> (of_char (digit_char d) :: nat) = 48 + d"
  by (simp add: digit_char_def)

lemma is_digit_digit_char: "d < 10 \<Longrightarrow> is_digit (digit_char d)"
  by (simp add: is_digit_def of_char_digit_char)

lemma digit_val_digit_char: "d < 10 \<Longrightarrow> digit_val (digit_char d) = d"
  by (simp add: digit_val_def of_char_digit_char)

lemma is_digit_not_space: "is_digit c \<Longrightarrow> \<not> is_space c" "is_digit c \<Longrightarrow> \<not> is_int_space c"
  by (auto simp: is_digit_def is_space_def is_int_space_def Let_def)

lemma is_digit_lower: "is_digit c \<Longrightarrow> lower_char c = c"
  by (auto simp: is_digit_def lower_char_def Let_def)

lemma is_digit_not_sign: "is_digit c \<Longrightarrow> c \<noteq> CHR ''-'' \<and> c \<noteq> CHR ''+'' \<and> c \<noteq> CHR ''_''"
  by (auto simp: is_digit_def)

lemma minus_facts:
  "\<not> is_space CHR ''-''" "\<not> is_int_space CHR ''-''" "\<not> is_digit CHR ''-''"
  "lower_char CHR ''-'' = CHR ''-''"
  by (simp_all add: is_space_def is_int_space_def is_digit_def lower_char_def)

lemma str_nat_digits: "c \<in> set (str_nat n) \<Longrightarrow> is_digit c"
proof (induction n rule: str_nat.induct)
  case (1 n)
  show ?case
  proof (cases "n < 10")
    case True
    with "1.prems" show ?thesis
      by (simp add: str_nat.simps [of n] is_digit_digit_char)
  next
    case False
    with "1.prems" "1.IH" show ?thesis
      by (auto simp: str_nat.simps [of n] is_digit_digit_char)
  qed
qed

lemma str_nat_nonempty: "str_nat n \<noteq> []"
  by (subst str_nat.simps) simp

lemma length_str_nat: "n < 10 ^ k \<Longrightarrow> 0 < k \<Longrightarrow> length (str_nat n) \<le> k"
proof (induction n arbitrary: k rule: str_nat.induct)
  case (1 n)
  show ?case
  proof (cases "n < 10")
    case True
    then show ?thesis using "1.prems" by (simp add: str_nat.simps [of n])
  next
    case False
    obtain j where k: "k = Suc j" using "1.prems"(2) by (cases k) auto
    have "0 < j" using False "1.prems"(1) k by (cases j) auto
    moreover have "n div 10 < 10 ^ j" using "1.prems"(1) k by (simp add: less_mult_imp_div_less mult.commute)
    ultimately have "length (str_nat (n div 10)) \<le> j" using "1.IH" False by simp
    then show ?thesis using False k by (simp add: str_nat.simps [of n])
  qed
qed

lemma parse_digits_all_digits:
  "\<forall>c \<in> set cs. is_digit c \<Longrightarrow> parse_digits acc cs = Some (digits_value acc cs)"
  by (induction cs arbitrary: acc) (simp_all add: digits_value_def)

lemma digits_value_str_nat: "digits_value 0 (str_nat n) = n"
proof (induction n rule: str_nat.induct)
  case (1 n)
  show ?case
  proof (cases "n < 10")
    case True
    then show ?thesis
      by (simp add: str_nat.simps [of n] digits_value_def digit_val_digit_char)
  next
    case False
    with "1.IH" show ?thesis
      by (simp add: str_nat.simps [of n] digits_value_def digit_val_digit_char)
  qed
qed

lemma parse_body_str_nat: "parse_body (str_nat n) = Some n"
proof -
  obtain c cs where e: "str_nat n = c # cs"
    using str_nat_nonempty [of n] by (cases "str_nat n") auto
  have d: "\<forall>x \<in> set (c # cs). is_digit x"
    using str_nat_digits [of _ n] e by auto
  have "parse_body (c # cs) = parse_digits (digit_val c) cs"
    using d by (simp add: parse_body_def)
  also have "\<dots> = Some (digits_value (digit_val c) cs)"
    using d by (simp add: parse_digits_all_digits)
  also have "digits_value (digit_val c) cs = digits_value 0 (c # cs)"
    by (simp add: digits_value_def)
  finally show ?thesis
    using digits_value_str_nat [of n] e by simp
qed

lemma trim_unchanged:
  assumes "\<forall>c \<in> set s. \<not> blank c"
  shows "trim blank s = s"
proof -
  have a: "dropWhile blank s = s"
    using assms by (cases s) auto
  have "\<forall>c \<in> set (rev s). \<not> blank c" using assms by simp
  then have b: "dropWhile blank (rev s) = rev s"
    by (cases "rev s") auto
  show ?thesis by (simp add: trim_def a b)
qed

lemma py_str_chars: "c \<in> set (py_str k) \<Longrightarrow> is_digit c \<or> c = CHR ''-''"
  by (auto simp: py_str_def dest: str_nat_digits split: if_splits)

lemma strip_py_str: "strip (py_str i) = py_str i"
  unfolding strip_def
  by (rule trim_unchanged) (auto dest!: py_str_chars simp: is_digit_not_space minus_facts)

lemma int_trim_py_str: "trim is_int_space (py_str i) = py_str i"
  by (rule trim_unchanged) (auto dest!: py_str_chars simp: is_digit_not_space minus_facts)

lemma lower_py_str: "lower (py_str i) = py_str i"
proof -
  have "map lower_char (py_str i) = py_str i"
    by (rule map_idI) (auto dest!: py_str_chars simp: is_digit_lower minus_facts)
  then show ?thesis by (simp add: lower_def)
qed

lemma digits_of_py_str: "filter is_digit (py_str i) = str_nat (nat \<bar>i\<bar>)"
proof -
  have "filter is_digit (str_nat n) = str_nat n" for n
    by (simp add: filter_id_conv str_nat_digits)
  then show ?thesis by (simp add: py_str_def minus_facts)
qed

lemma py_int_of_str_py_str:
  assumes "\<bar>i\<bar> < 10 ^ max_str_digits"
  shows "py_int_of_str (py_str i) = Some i"
proof -
  have "int (nat \<bar>i\<bar>) < int (10 ^ max_str_digits)" using assms by simp
  then have "nat \<bar>i\<bar> < 10 ^ max_str_digits" by (simp only: of_nat_less_iff)
  moreover have "0 < max_str_digits" by (simp add: max_str_digits_def)
  ultimately have "length (str_nat (nat \<bar>i\<bar>)) \<le> max_str_digits" by (rule length_str_nat)
  then have lim: "\<not> max_str_digits < length (filter is_digit (py_str i))"
    by (simp add: digits_of_py_str)
  show ?thesis
  proof (cases "i < 0")
    case True
    then have p: "py_str i = CHR ''-'' # str_nat (nat (- i))" by (simp add: py_str_def)
    show ?thesis
      using lim True unfolding py_int_of_str_def int_trim_py_str
      by (simp add: p parse_body_str_nat)
  next
    case False
    obtain c cs where e: "str_nat (nat i) = c # cs"
      using str_nat_nonempty [of "nat i"] by (cases "str_nat (nat i)") auto
    have "is_digit c" using str_nat_digits [of c "nat i"] e by simp
    then have ns: "c \<noteq> CHR ''-''" "c \<noteq> CHR ''+''" using is_digit_not_sign by auto
    have p: "py_str i = c # cs" using False e by (simp add: py_str_def)
    have "py_int_of_str (py_str i) = map_option int (parse_body (c # cs))"
      using ns lim unfolding py_int_of_str_def int_trim_py_str by (simp add: p)
    then show ?thesis using parse_body_str_nat [of "nat i"] e False by simp
  qed
qed

lemma index_sized_text:
  assumes "\<bar>i\<bar> < index_limit"
  shows "\<bar>i\<bar> < (10::int) ^ max_str_digits"
proof -
  have "(2::int) ^ 63 \<le> 10 ^ 63" by (rule power_mono) simp_all
  moreover have "(10::int) ^ 63 \<le> 10 ^ max_str_digits"
    by (rule power_increasing) (simp_all add: max_str_digits_def)
  ultimately have "index_limit \<le> (10::int) ^ max_str_digits"
    unfolding index_limit_def by (rule order_trans)
  then show ?thesis using assms by (rule less_le_trans [rotated])
qed

section \<open>One round\<close>

lemma py_str_in_valid_choices:
  "1 \<le> s \<Longrightarrow> s \<le> int (length (allOptions q)) \<Longrightarrow> py_str s \<in> set (valid_choices_of q)"
  by (simp add: valid_choices_of_def)

lemma valid_choices_nonempty: "allOptions q \<noteq> [] \<Longrightarrow> valid_choices_of q \<noteq> []"
  by (simp add: valid_choices_of_def)

lemma input_loop_accept:
  "valid = [] \<or> lower (strip l) \<in> set valid \<Longrightarrow>
   input_loop p valid (Line l # rest) = (Inr (lower (strip l)), rest, [Ask p])"
  by (auto simp: Let_def)

lemma input_loop_reject:
  "valid \<noteq> [] \<Longrightarrow> lower (strip l) \<notin> set valid \<Longrightarrow>
   input_loop p valid (Line l # rest) =
     (case input_loop p valid rest of
        (r, rest', es) \<Rightarrow> (r, rest', Ask p # Say_Please_Enter valid # es))"
  by (simp add: Let_def)

lemma emit_emit: "emit b (emit a w) = emit (a @ b) w"
  by (simp add: emit_def)

lemma py_index_in_range:
  "0 \<le> i \<Longrightarrow> i < int (length xs) \<Longrightarrow> py_index xs i = Inr (xs ! nat i)"
  by (simp add: py_index_def)

lemma play_round_valid:
  assumes d: "coerce_difficulty (difficulty q) = Inr d"
    and st: "star_string d w = Inr k"
    and s: "1 \<le> s" "s \<le> int (length (allOptions q))"
    and len: "int (length (allOptions q)) < index_limit"
    and i: "inputs w = Line l # rest"
    and l: "lower (strip l) = py_str s"
  shows "play_round q g w =
     (let ok = (s - 1 = correctAnswerIndex q);
          w3 = emit ([Show_Score (score g) (correct_answers g) (total_questions g) (stars_earned g),
                      Show_Question (total_questions g + 1) (question q)
                        (biblicalReference q) (categories q),
                      Show_Difficulty k, Show_Choices (allOptions q),
                      Ask (Choice_Prompt (length (allOptions q)))]
                     @ (if ok then [Say_Correct (allOptions q ! nat (s - 1)) (d * 10) d]
                        else [Say_Incorrect (allOptions q ! nat (s - 1)) (correctAnswer q)])
                     @ (if biblicalReference q \<noteq> [] then [Show_Reference (biblicalReference q)]
                        else []))
                 (w\<lparr>inputs := rest\<rparr>)
      in case py_sleep w3 of
           (Inl e, w4) \<Rightarrow> (Inl e, scored d ok g, w4)
         | (Inr _, w4) \<Rightarrow> (Inr ok, scored d ok g, w4))"
proof -
  let ?w1 = "emit [Show_Score (score g) (correct_answers g) (total_questions g) (stars_earned g),
                   Show_Question (total_questions g + 1) (question q)
                     (biblicalReference q) (categories q),
                   Show_Difficulty k, Show_Choices (allOptions q)] w"
  let ?p = "Choice_Prompt (length (allOptions q))"
  have dq: "display_question q g w = (Inr (), ?w1)"
    by (simp add: display_question_def d st emit_emit)
  have "\<bar>s\<bar> < index_limit" using s len by simp
  then have pi: "py_int_of_str (py_str s) = Some s"
    by (intro py_int_of_str_py_str index_sized_text)
  have v: "lower (strip l) \<in> set (valid_choices_of q)"
    using s l py_str_in_valid_choices by simp
  have "inputs ?w1 = Line l # rest" using i by (simp add: emit_def)
  then have gu: "get_user_input ?p (valid_choices_of q) ?w1
             = (Inr (py_str s), emit [Ask ?p] (?w1\<lparr>inputs := rest\<rparr>))"
    using v l by (simp add: get_user_input_def input_loop_accept)
  have x: "py_index (allOptions q) (s - 1) = Inr (allOptions q ! nat (s - 1))"
    using s by (simp add: py_index_in_range)
  have e: "emit es (emit [Ask ?p] (?w1\<lparr>inputs := rest\<rparr>))
           = emit ([Show_Score (score g) (correct_answers g) (total_questions g) (stars_earned g),
                      Show_Question (total_questions g + 1) (question q)
                        (biblicalReference q) (categories q),
                      Show_Difficulty k, Show_Choices (allOptions q),
                      Ask ?p] @ es) (w\<lparr>inputs := rest\<rparr>)" for es
    by (simp add: emit_def)
  show ?thesis
    unfolding play_round_def
    by (simp add: dq gu d x pi Let_def scored_def e
             del: append.simps split: prod.split sum.split)
qed

lemma py_sleep_cases:
  "py_sleep w = (if interrupted w then Inl KeyboardInterrupt else Inr (), w\<lparr>sleeps := tl (sleeps w)\<rparr>)"
  by (cases w) (auto simp: py_sleep_def interrupted_def split: list.splits)

lemma interrupted_emit [simp]: "interrupted (emit es w) = interrupted w"
  by (simp add: interrupted_def emit_def)

lemma interrupted_inputs [simp]: "interrupted (w\<lparr>inputs := r\<rparr>) = interrupted w"
  by (simp add: interrupted_def)

lemma play_round_valid_result:
  assumes "coerce_difficulty (difficulty q) = Inr d"
    and "star_string d w = Inr k"
    and "1 \<le> s" "s \<le> int (length (allOptions q))"
    and "int (length (allOptions q)) < index_limit"
    and "inputs w = Line l # rest" "lower (strip l) = py_str s"
  shows "fst (play_round q g w) =
           (if interrupted w then Inl KeyboardInterrupt else Inr (s - 1 = correctAnswerIndex q))"
    and "fst (snd (play_round q g w)) = scored d (s - 1 = correctAnswerIndex q) g"
  by (simp_all add: play_round_valid [OF assms] Let_def py_sleep_cases del: append.simps)


text \<open>
  Claim C9. For a question whose difficulty reads as an integer and a typed selection
  \<open>s\<close> between 1 and the number of options, the round is marked correct exactly when
  \<open>s - 1\<close> is \<open>correctAnswerIndex\<close>: that is the value \<^verbatim>\<open>play_round\<close> returns (unless
  Ctrl+C arrives during the pause that ends the round), and the count of correct answers
  goes up by one exactly then.
\<close>

theorem selection_correct_iff_index:
  assumes "coerce_difficulty (difficulty q) = Inr d"
    and "star_string d w = Inr k"
    and "1 \<le> s" "s \<le> int (length (allOptions q))"
    and "int (length (allOptions q)) < index_limit"
    and "inputs w = Line l # rest" "lower (strip l) = py_str s"
  shows "fst (play_round q g w) =
           (if interrupted w then Inl KeyboardInterrupt else Inr (s - 1 = correctAnswerIndex q))
       \<and> correct_answers (fst (snd (play_round q g w))) =
           correct_answers g + (if s - 1 = correctAnswerIndex q then 1 else 0)"
  using play_round_valid_result [OF assms, of g] by (simp add: scored_def)


theorem selection_correct_iff_index_witness:
  "fst (play_round four_options new_game (typing [''3''])) = Inr True
   \<and> fst (play_round four_options new_game (typing [''1''])) = Inr False
   \<and> fst (play_round four_options new_game (typing [''2''])) = Inr False
   \<and> fst (play_round four_options new_game (typing [''4''])) = Inr False
   \<and> correct_answers (fst (snd (play_round four_options new_game (typing [''3''])))) = 1"
proof -
  have d: "coerce_difficulty (difficulty four_options) = Inr 2" by code_simp
  have st: "star_string 2 (typing ls) = Inr 2" for ls
    by (simp add: star_string_def star_width_def typing_def index_limit_def)
  have b: "int (length (allOptions four_options)) < index_limit"
    by (simp add: four_options_def index_limit_def)
  have n: "\<not> interrupted (typing ls)" for ls by (simp add: interrupted_def typing_def)
  have c: "correct_answers new_game = 0" by (simp add: new_game_def)
  have x: "correctAnswerIndex four_options = 2" by (simp add: four_options_def)
  have r: "fst (play_round four_options new_game (typing [l])) = Inr (s - 1 = 2)
      \<and> correct_answers (fst (snd (play_round four_options new_game (typing [l]))))
          = (if s - 1 = 2 then 1 else 0)"
    if "1 \<le> s" "s \<le> int (length (allOptions four_options))" "lower (strip l) = py_str s"
    for l s
    using selection_correct_iff_index
            [OF d st [of "[l]"] that(1,2) b _ that(3), where rest = "[]" and g = new_game]
    by (simp add: n c x) (simp add: typing_def)
  have l: "int (length (allOptions four_options)) = 4" by (simp add: four_options_def)
  have s1: "lower (strip ''1'') = py_str 1" by code_simp
  have s2: "lower (strip ''2'') = py_str 2" by code_simp
  have s3: "lower (strip ''3'') = py_str 3" by code_simp
  have s4: "lower (strip ''4'') = py_str 4" by code_simp
  show ?thesis
    using r [OF _ _ s1] r [OF _ _ s2] r [OF _ _ s3] r [OF _ _ s4] by (simp add: l)
qed

section \<open>Scoring\<close>

lemma play_round_trace_valid:
  assumes "coerce_difficulty (difficulty q) = Inr d"
    and "star_string d w = Inr k"
    and "1 \<le> s" "s \<le> int (length (allOptions q))"
    and "int (length (allOptions q)) < index_limit"
    and "inputs w = Line l # rest" "lower (strip l) = py_str s"
  shows "trace (snd (snd (play_round q g w))) = trace w @
           [Show_Score (score g) (correct_answers g) (total_questions g) (stars_earned g),
            Show_Question (total_questions g + 1) (question q)
              (biblicalReference q) (categories q),
            Show_Difficulty k, Show_Choices (allOptions q),
            Ask (Choice_Prompt (length (allOptions q)))]
           @ (if s - 1 = correctAnswerIndex q
              then [Say_Correct (allOptions q ! nat (s - 1)) (d * 10) d]
              else [Say_Incorrect (allOptions q ! nat (s - 1)) (correctAnswer q)])
           @ (if biblicalReference q \<noteq> [] then [Show_Reference (biblicalReference q)]
              else [])"
  by (simp add: play_round_valid [OF assms] Let_def py_sleep_cases emit_def del: append.simps)

lemma coerce_difficulty_text:
  "\<bar>j\<bar> < 10 ^ max_str_digits \<Longrightarrow> coerce_difficulty (DStr (py_str j)) = coerce_difficulty (DInt j)"
  by (simp add: coerce_difficulty_def py_int_of_str_py_str)

lemma play_round_text_difficulty:
  assumes "\<bar>j\<bar> < 10 ^ max_str_digits"
  shows "play_round (q\<lparr>difficulty := DStr (py_str j)\<rparr>) g w
         = play_round (q\<lparr>difficulty := DInt j\<rparr>) g w"
  by (simp add: play_round_def display_question_def valid_choices_of_def
        coerce_difficulty_text [OF assms]
        Let_def cong: prod.case_cong sum.case_cong option.case_cong if_cong)

text \<open>
  Claim C1. In a round where the question is displayed (its difficulty reads as the
  integer \<open>d\<close> and the string of stars can be built) and the user selects option \<open>s\<close>,
  the score grows by \<open>d * 10\<close> and the stars by \<open>d\<close> if \<open>s - 1\<close> is \<open>correctAnswerIndex\<close>,
  and both stay as they are otherwise; the message of a correct round shows these
  amounts. A difficulty that arrives as the text \<^verbatim>\<open>str(j)\<close> of an integer, of no more
  digits than \<^verbatim>\<open>int\<close> reads, gives the same round, in every respect, as the integer \<open>j\<close>.
\<close>

theorem round_scoring:
  assumes "coerce_difficulty (difficulty q) = Inr d"
    and "star_string d w = Inr k"
    and "1 \<le> s" "s \<le> int (length (allOptions q))"
    and "int (length (allOptions q)) < index_limit"
    and "inputs w = Line l # rest" "lower (strip l) = py_str s"
  shows "score (fst (snd (play_round q g w))) =
           score g + (if s - 1 = correctAnswerIndex q then d * 10 else 0)
       \<and> stars_earned (fst (snd (play_round q g w))) =
           stars_earned g + (if s - 1 = correctAnswerIndex q then d else 0)
       \<and> (s - 1 = correctAnswerIndex q \<longrightarrow>
            Say_Correct (allOptions q ! nat (s - 1)) (d * 10) d
              \<in> set (trace (snd (snd (play_round q g w)))))
       \<and> (\<bar>j\<bar> < 10 ^ max_str_digits \<longrightarrow>
            play_round (q\<lparr>difficulty := DStr (py_str j)\<rparr>) g' w'
              = play_round (q\<lparr>difficulty := DInt j\<rparr>) g' w')"
  using play_round_valid_result(2) [OF assms, of g] play_round_trace_valid [OF assms, of g]
  by (simp add: scored_def play_round_text_difficulty)

lemma play_round_cases:
  "(\<exists>e w'. play_round q g w = (Inl e, g, w')) \<or>
   (\<exists>d ok r w'. coerce_difficulty (difficulty q) = Inr d
       \<and> play_round q g w = (r, scored d ok g, w')
       \<and> (r = Inr ok \<or> r = Inl KeyboardInterrupt))"
proof -
  obtain r1 w1 where a: "display_question q g w = (r1, w1)"
    by (cases "display_question q g w")
  obtain r2 w2 where b:
    "get_user_input (Choice_Prompt (length (allOptions q))) (valid_choices_of q) w1 = (r2, w2)"
    by (cases "get_user_input (Choice_Prompt (length (allOptions q))) (valid_choices_of q) w1")
  show ?thesis
  proof (cases r1)
    case (Inl e)
    then show ?thesis by (simp add: play_round_def a)
  next
    case r1: (Inr u)
    show ?thesis
    proof (cases r2)
      case (Inl e)
      then show ?thesis by (simp add: play_round_def a b r1)
    next
      case r2: (Inr choice)
      show ?thesis
      proof (cases "py_int_of_str choice")
        case None
        then show ?thesis by (simp add: play_round_def a b r1 r2)
      next
        case n: (Some n)
        show ?thesis
        proof (cases "py_index (allOptions q) (n - 1)")
          case (Inl e)
          then show ?thesis by (simp add: play_round_def a b r1 r2 n)
        next
          case x: (Inr user_answer)
          show ?thesis
          proof (cases "coerce_difficulty (difficulty q)")
            case (Inl e)
            then show ?thesis by (simp add: play_round_def a b r1 r2 n x)
          next
            case d: (Inr d)
            have "\<exists>r w'. play_round q g w = (r, scored d (n - 1 = correctAnswerIndex q) g, w')
                    \<and> (r = Inr (n - 1 = correctAnswerIndex q) \<or> r = Inl KeyboardInterrupt)"
              by (simp add: play_round_def a b r1 r2 n x d Let_def py_sleep_cases scored_def)
            then show ?thesis using d by blast
          qed
        qed
      qed
    qed
  qed
qed

lemma play_round_game:
  "fst (snd (play_round q g w)) = g \<or>
   (\<exists>d ok. coerce_difficulty (difficulty q) = Inr d \<and> fst (snd (play_round q g w)) = scored d ok g)"
  using play_round_cases [of q g w] by auto

lemma play_round_completed:
  "play_round q g w = (Inr ok, g', w') \<Longrightarrow>
   \<exists>d. coerce_difficulty (difficulty q) = Inr d \<and> g' = scored d ok g"
  using play_round_cases [of q g w] by auto

theorem round_scoring_witness:
  "score (fst (snd (play_round four_options new_game (typing [''3''])))) = 20
   \<and> stars_earned (fst (snd (play_round four_options new_game (typing [''3''])))) = 2
   \<and> Say_Correct ''c'' 20 2
        \<in> set (trace (snd (snd (play_round four_options new_game (typing [''3''])))))
   \<and> score (fst (snd (play_round four_options new_game (typing [''1''])))) = 0
   \<and> stars_earned (fst (snd (play_round four_options new_game (typing [''1''])))) = 0
   \<and> play_round (four_options\<lparr>difficulty := DStr (py_str 3)\<rparr>) new_game (typing [''3''])
       = play_round (four_options\<lparr>difficulty := DInt 3\<rparr>) new_game (typing [''3''])"
proof -
  have d: "coerce_difficulty (difficulty four_options) = Inr 2" by code_simp
  have st: "star_string 2 (typing ls) = Inr 2" for ls
    by (simp add: star_string_def star_width_def typing_def index_limit_def)
  have l: "int (length (allOptions four_options)) = 4" by (simp add: four_options_def)
  have b: "int (length (allOptions four_options)) < index_limit"
    by (simp add: four_options_def index_limit_def)
  have s1: "lower (strip ''1'') = py_str 1" by code_simp
  have s3: "lower (strip ''3'') = py_str 3" by code_simp
  have i: "inputs (typing [x]) = Line x # []" for x by (simp add: typing_def)
  have f: "correctAnswerIndex four_options = 2" "allOptions four_options ! 2 = ''c''"
    "score new_game = 0" "stars_earned new_game = 0"
    by (simp_all add: four_options_def new_game_def)
  have "\<bar>3::int\<bar> < index_limit" by (simp add: index_limit_def)
  then have h: "\<bar>3::int\<bar> < 10 ^ max_str_digits" by (rule index_sized_text)
  show ?thesis
    using round_scoring [OF d st _ _ b i s3,
            where g = new_game and j = 3 and g' = new_game and w' = "typing [''3'']"]
          round_scoring [OF d st _ _ b i s1,
            where g = new_game and j = 3 and g' = new_game and w' = "typing [''3'']"]
          h
    by (simp add: l f)
qed

section \<open>The counters\<close>

lemma counters_ok_scored: "counters_ok g \<Longrightarrow> counters_ok (scored d ok g)"
  by (simp add: counters_ok_def scored_def)

lemma counters_ok_play_round: "counters_ok g \<Longrightarrow> counters_ok (fst (snd (play_round q g w)))"
  using play_round_game [of q g w] by (auto simp: counters_ok_scored)

lemma play_round_monotone:
  "total_questions g \<le> total_questions (fst (snd (play_round q g w)))"
  "correct_answers g \<le> correct_answers (fst (snd (play_round q g w)))"
  "nonneg_difficulty q \<Longrightarrow> score g \<le> score (fst (snd (play_round q g w)))"
  "nonneg_difficulty q \<Longrightarrow> stars_earned g \<le> stars_earned (fst (snd (play_round q g w)))"
  using play_round_game [of q g w] by (auto simp: scored_def nonneg_difficulty_def)

text \<open>
  Claim C10. The four counters of a new game are zero. A round keeps the invariant
  (score is ten times the stars earned, correct answers do not exceed the rounds played),
  however the round ends; it never lowers the number of rounds played or of correct
  answers, and it never lowers the score or the stars when the question's difficulty is
  not negative.
\<close>

theorem counters_invariant:
  assumes "counters_ok g"
  shows "score new_game = 0 \<and> total_questions new_game = 0 \<and> correct_answers new_game = 0
       \<and> stars_earned new_game = 0
       \<and> score (fst (snd (play_round q g w))) = 10 * stars_earned (fst (snd (play_round q g w)))
       \<and> correct_answers (fst (snd (play_round q g w)))
            \<le> total_questions (fst (snd (play_round q g w)))
       \<and> total_questions g \<le> total_questions (fst (snd (play_round q g w)))
       \<and> correct_answers g \<le> correct_answers (fst (snd (play_round q g w)))
       \<and> (nonneg_difficulty q \<longrightarrow>
            score g \<le> score (fst (snd (play_round q g w)))
            \<and> stars_earned g \<le> stars_earned (fst (snd (play_round q g w))))"
  using counters_ok_play_round [OF assms, of q w] play_round_monotone [where g = g and q = q and w = w]
  by (simp add: counters_ok_def new_game_def)

theorem counters_invariant_witness:
  "counters_ok new_game \<and> nonneg_difficulty four_options
   \<and> score (fst (snd (play_round four_options new_game (typing [''3'']))))
       = 10 * stars_earned (fst (snd (play_round four_options new_game (typing [''3'']))))
   \<and> correct_answers (fst (snd (play_round four_options new_game (typing [''3'']))))
       \<le> total_questions (fst (snd (play_round four_options new_game (typing [''3'']))))
   \<and> 0 \<le> score (fst (snd (play_round four_options new_game (typing [''3'']))))
   \<and> 0 \<le> stars_earned (fst (snd (play_round four_options new_game (typing [''3'']))))"
proof -
  have h: "counters_ok new_game" by (simp add: counters_ok_def new_game_def)
  have n: "nonneg_difficulty four_options"
    by (simp add: nonneg_difficulty_def coerce_difficulty_def four_options_def)
  show ?thesis
    using counters_invariant [OF h, of four_options "typing [''3'']"] h n
    by (simp add: new_game_def)
qed

text \<open>
  Claim C10 says that none of the four counters ever decreases. A question whose
  difficulty is \<open>- 1\<close>, answered correctly, takes ten points and one star away: the first
  round of a new game ends with a score of \<open>- 10\<close> and \<open>- 1\<close> stars.
\<close>

theorem negative_difficulty_lowers_score:
  "play_round (four_options\<lparr>difficulty := DInt (- 1)\<rparr>) new_game (typing [''3'']) =
     (Inr True, \<lparr>score = - 10, total_questions = 1, correct_answers = 1, stars_earned = - 1\<rparr>,
      \<lparr>inputs = [], sleeps = [], capacity = 1000, get_reply = GetJson None,
       post_reply = PostJson PNotDict,
       trace = [Show_Score 0 0 0 0, Show_Question 1 ''Q'' [] [], Show_Difficulty 0,
                Show_Choices [''a'', ''b'', ''c'', ''d''], Ask (Choice_Prompt 4),
                Say_Correct ''c'' (- 10) (- 1)]\<rparr>)
   \<and> score (fst (snd (play_round (four_options\<lparr>difficulty := DInt (- 1)\<rparr>) new_game
                           (typing [''3''])))) < score new_game
   \<and> stars_earned (fst (snd (play_round (four_options\<lparr>difficulty := DInt (- 1)\<rparr>) new_game
                                  (typing [''3''])))) < stars_earned new_game"
  by code_simp

lemma play_questions_counters_ok:
  "counters_ok g \<Longrightarrow> counters_ok (fst (snd (play_questions i n qs g w)))"
proof (induction qs arbitrary: i g w)
  case Nil
  then show ?case by simp
next
  case (Cons q qs)
  obtain r g1 w1 where p: "play_round q g w = (r, g1, w1)" by (cases "play_round q g w")
  have ok: "counters_ok g1"
    using counters_ok_play_round [OF Cons.prems, of q w] p by simp
  show ?case
    using Cons.IH [OF ok] ok p
    by (auto split: sum.splits prod.splits)
qed

lemma start_counters_ok: "counters_ok (fst (snd (start c d n new_game w)))"
proof -
  have z: "counters_ok new_game" by (simp add: counters_ok_def new_game_def)
  have b: "counters_ok g \<Longrightarrow> counters_ok (fst (snd (rounds_then_end i k qs g w')))" for g i k qs w'
    using play_questions_counters_ok [of g i k qs w']
    by (auto simp: rounds_then_end_def split: sum.splits prod.splits)
  have s: "counters_ok (fst (snd (start_body c d n new_game w')))" for w'
    using z b by (auto simp: start_body_def Let_def split: sum.splits prod.splits option.splits list.splits)
  obtain r1 w1 where p: "py_sleep (emit [Say_Starting] w) = (r1, w1)"
    by (cases "py_sleep (emit [Say_Starting] w)")
  obtain r2 g2 w2 where t: "start_body c d n new_game w1 = (r2, g2, w2)"
    by (cases "start_body c d n new_game w1")
  have g2: "counters_ok g2" using s [of w1] t by simp
  show ?thesis
    unfolding start_def p using z g2 t
    by (auto split: sum.splits prod.splits)
qed

section \<open>Invalid selections\<close>

lemma lower_char_fixed:
  assumes "is_digit (lower_char c) \<or> lower_char c = CHR ''-''"
  shows "lower_char c = c"
proof (cases "(65 \<le> (of_char c :: nat) \<and> (of_char c :: nat) \<le> 90)
    \<or> (192 \<le> (of_char c :: nat) \<and> (of_char c :: nat) \<le> 222 \<and> (of_char c :: nat) \<noteq> 215)")
  case False
  then show ?thesis by (auto simp: lower_char_def Let_def)
next
  case True
  then have l: "lower_char c = char_of ((of_char c :: nat) + 32)"
    by (simp add: lower_char_def Let_def)
  have v: "(of_char (lower_char c) :: nat) = of_char c + 32"
    using True by (auto simp: l)
  have "(of_char CHR ''-'' :: nat) = 45" by simp
  then have "(of_char (lower_char c) :: nat) \<le> 57"
    using assms by (auto simp: is_digit_def Let_def)
  then show ?thesis using v True by auto
qed

lemma lower_eq_py_str:
  assumes "lower t = py_str k"
  shows "t = py_str k"
proof -
  have "lower_char c = c" if "c \<in> set t" for c
  proof -
    have "lower_char c \<in> set (map lower_char t)" using that by simp
    then have "lower_char c \<in> set (py_str k)"
      using assms by (simp only: lower_def)
    then show ?thesis using py_str_chars lower_char_fixed by blast
  qed
  then have "map lower_char t = t" by (simp add: map_idI)
  then show ?thesis using assms by (simp add: lower_def)
qed

lemma invalid_selection_rejected:
  assumes "invalid_selection (length (allOptions q)) l"
    and "int (length (allOptions q)) < index_limit"
  shows "lower (strip l) \<notin> set (valid_choices_of q)"
proof
  assume "lower (strip l) \<in> set (valid_choices_of q)"
  then obtain k where k: "1 \<le> k" "k \<le> int (length (allOptions q))" "lower (strip l) = py_str k"
    by (auto simp: valid_choices_of_def)
  have "\<bar>k\<bar> < index_limit" using k(1,2) assms(2) by simp
  then have "py_int_of_str (py_str k) = Some k"
    by (intro py_int_of_str_py_str index_sized_text)
  moreover have "strip l = py_str k" using k(3) by (rule lower_eq_py_str)
  ultimately show False using assms(1) k by (simp add: invalid_selection_def)
qed

lemma get_user_input_reject:
  assumes "valid \<noteq> []" "lower (strip l) \<notin> set valid"
  shows "get_user_input p valid (w\<lparr>inputs := Line l # rest\<rparr>)
         = get_user_input p valid (emit [Ask p, Say_Please_Enter valid] (w\<lparr>inputs := rest\<rparr>))"
  using assms by (simp add: get_user_input_def emit_def split: prod.splits)


lemma play_round_via_loop:
  assumes "input_loop (Choice_Prompt (length (allOptions q))) (valid_choices_of q) (inputs w)
             = (r, rest, es)"
  shows "(fst (play_round q g w), fst (snd (play_round q g w))) =
     (case coerce_difficulty (difficulty q) of
        Inl e \<Rightarrow> (Inl e, g)
      | Inr d \<Rightarrow>
     (case star_string d w of
        Inl e \<Rightarrow> (Inl e, g)
      | Inr k \<Rightarrow>
          (case r of
             Inl e \<Rightarrow> (Inl e, g)
           | Inr choice \<Rightarrow>
               (case py_int_of_str choice of
                  None \<Rightarrow> (Inl ValueError, g)
                | Some n \<Rightarrow>
                    (case py_index (allOptions q) (n - 1) of
                       Inl e \<Rightarrow> (Inl e, g)
                     | Inr a \<Rightarrow>
                         (if interrupted w then Inl KeyboardInterrupt
                          else Inr (n - 1 = correctAnswerIndex q),
                          scored d (n - 1 = correctAnswerIndex q) g))))))"
  using assms
  by (simp add: play_round_def display_question_def get_user_input_def emit_def Let_def
        py_sleep_cases scored_def interrupted_def
        split: sum.splits option.splits)

lemma star_string_inputs [simp]: "star_string d (w\<lparr>inputs := r\<rparr>) = star_string d w"
  by (simp add: star_string_def)

lemma play_round_reject:
  assumes "valid_choices_of q \<noteq> []" "lower (strip l) \<notin> set (valid_choices_of q)"
  shows "fst (play_round q g (w\<lparr>inputs := Line l # rest\<rparr>))
           = fst (play_round q g (w\<lparr>inputs := rest\<rparr>))"
    and "fst (snd (play_round q g (w\<lparr>inputs := Line l # rest\<rparr>)))
           = fst (snd (play_round q g (w\<lparr>inputs := rest\<rparr>)))"
proof -
  let ?p = "Choice_Prompt (length (allOptions q))"
  obtain r rest' es where a: "input_loop ?p (valid_choices_of q) rest = (r, rest', es)"
    by (cases "input_loop ?p (valid_choices_of q) rest")
  have a': "input_loop ?p (valid_choices_of q) (inputs (w\<lparr>inputs := rest\<rparr>)) = (r, rest', es)"
    using a by simp
  have b: "input_loop ?p (valid_choices_of q) (inputs (w\<lparr>inputs := Line l # rest\<rparr>))
             = (r, rest', Ask ?p # Say_Please_Enter (valid_choices_of q) # es)"
    using assms a by simp
  have "(fst (play_round q g (w\<lparr>inputs := Line l # rest\<rparr>)),
         fst (snd (play_round q g (w\<lparr>inputs := Line l # rest\<rparr>))))
      = (fst (play_round q g (w\<lparr>inputs := rest\<rparr>)),
         fst (snd (play_round q g (w\<lparr>inputs := rest\<rparr>))))"
    using play_round_via_loop [OF b, of g] play_round_via_loop [OF a', of g]
    by (simp cong: sum.case_cong option.case_cong)
  then show "fst (play_round q g (w\<lparr>inputs := Line l # rest\<rparr>))
           = fst (play_round q g (w\<lparr>inputs := rest\<rparr>))"
    and "fst (snd (play_round q g (w\<lparr>inputs := Line l # rest\<rparr>)))
           = fst (snd (play_round q g (w\<lparr>inputs := rest\<rparr>)))"
    by simp_all
qed

lemma play_round_eof: "fst (snd (play_round q g (w\<lparr>inputs := []\<rparr>))) = g"
proof -
  have "input_loop (Choice_Prompt (length (allOptions q))) (valid_choices_of q)
          (inputs (w\<lparr>inputs := []\<rparr>))
        = (Inl EOFError, [], [Ask (Choice_Prompt (length (allOptions q)))])"
    by simp
  from play_round_via_loop [OF this, of g] show ?thesis
    by (simp split: sum.splits)
qed

text \<open>
  Claim C5. For a question with at least one option, a typed line that is not a number,
  or is a number outside 1 to the number of options, is answered by the list of valid
  choices and the same prompt again, and changes nothing else: the round goes on from
  the next line with the same result and the same counters as if the line had not been
  typed, and with nothing but that line typed the counters are the ones before the round.
\<close>

theorem invalid_selection_reprompts:
  assumes "allOptions q \<noteq> []" "int (length (allOptions q)) < index_limit"
    and "invalid_selection (length (allOptions q)) l"
  shows "get_user_input (Choice_Prompt (length (allOptions q))) (valid_choices_of q)
           (w\<lparr>inputs := Line l # rest\<rparr>)
         = get_user_input (Choice_Prompt (length (allOptions q))) (valid_choices_of q)
             (emit [Ask (Choice_Prompt (length (allOptions q))),
                    Say_Please_Enter (valid_choices_of q)] (w\<lparr>inputs := rest\<rparr>))
       \<and> fst (play_round q g (w\<lparr>inputs := Line l # rest\<rparr>))
           = fst (play_round q g (w\<lparr>inputs := rest\<rparr>))
       \<and> fst (snd (play_round q g (w\<lparr>inputs := Line l # rest\<rparr>)))
           = fst (snd (play_round q g (w\<lparr>inputs := rest\<rparr>)))
       \<and> fst (snd (play_round q g (w\<lparr>inputs := [Line l]\<rparr>))) = g"
proof -
  have v: "valid_choices_of q \<noteq> []" using assms(1) by (rule valid_choices_nonempty)
  have n: "lower (strip l) \<notin> set (valid_choices_of q)"
    using assms(3,2) by (rule invalid_selection_rejected)
  show ?thesis
    using get_user_input_reject [OF v n] play_round_reject [OF v n] play_round_eof
    by simp
qed

theorem invalid_selection_reprompts_witness:
  "allOptions four_options \<noteq> [] \<and> int (length (allOptions four_options)) < index_limit
   \<and> invalid_selection (length (allOptions four_options)) ''7''
   \<and> invalid_selection (length (allOptions four_options)) ''three''
   \<and> \<not> invalid_selection (length (allOptions four_options)) (char_of (160 :: nat) # ''3'')
   \<and> fst (play_round four_options new_game (typing [''7'', ''3''])) = Inr True
   \<and> fst (snd (play_round four_options new_game (typing [''7'']))) = new_game"
proof -
  have a: "allOptions four_options \<noteq> []" by (simp add: four_options_def)
  have b: "invalid_selection (length (allOptions four_options)) ''7''" by code_simp
  have b': "invalid_selection (length (allOptions four_options)) ''three''" by code_simp
  have b'': "\<not> invalid_selection (length (allOptions four_options)) (char_of (160 :: nat) # ''3'')"
    by code_simp
  have k: "int (length (allOptions four_options)) < index_limit"
    by (simp add: four_options_def index_limit_def)
  have st: "star_string 2 (typing [''3'']) = Inr 2"
    by (simp add: star_string_def star_width_def typing_def index_limit_def)
  have t: "(typing [])\<lparr>inputs := [Line ''7'', Line ''3'']\<rparr> = typing [''7'', ''3'']"
    "(typing [])\<lparr>inputs := [Line ''3'']\<rparr> = typing [''3'']"
    "(typing [])\<lparr>inputs := [Line ''7'']\<rparr> = typing [''7'']"
    by (simp_all add: typing_def)
  have d: "coerce_difficulty (difficulty four_options) = Inr 2" by code_simp
  have s3: "lower (strip ''3'') = py_str 3" by code_simp
  have i: "inputs (typing [''3'']) = Line ''3'' # []" by (simp add: typing_def)
  have c: "fst (play_round four_options new_game (typing [''3''])) = Inr True"
    using play_round_valid_result(1) [OF d st _ _ k i s3, of new_game]
    by (simp add: four_options_def interrupted_def typing_def)
  show ?thesis
    using invalid_selection_reprompts
            [OF a k b, where w = "typing []" and rest = "[Line ''3'']" and g = new_game]
          a b b' b'' c k
    by (simp add: t)
qed

section \<open>The end of a session\<close>

lemma posts_append: "posts (a @ b) = posts a @ posts b"
  by (simp add: posts_def)

lemma posts_simps:
  "posts [] = []"
  "posts (e # es) = (if is_post e then e # posts es else posts es)"
  by (simp_all add: posts_def)

lemma end_game_trace:
  "\<exists>es. trace (snd (end_game g w)) =
          trace w @ Show_Summary (total_questions g) (correct_answers g)
                       (format_1f (accuracy g)) (score g) (stars_earned g)
            # (if 0 < stars_earned g
               then [Http_Post ''stars/add'' (stars_earned g) (reward_reason g)] else []) @ es
        \<and> posts es = []"
proof (cases "0 < stars_earned g")
  case False
  then show ?thesis by (simp add: end_game_def emit_def posts_def is_post_def)
next
  case True
  show ?thesis
  proof (cases "post_reply w")
    case (PostJson j)
    then show ?thesis
      using True
      by (cases j)
         (simp_all add: end_game_def add_stars_def api_post_def emit_def posts_def is_post_def)
  next
    case PostHTTPError
    then show ?thesis
      using True
      by (simp add: end_game_def add_stars_def api_post_def emit_def posts_def is_post_def
            is_Exception_def)
  next
    case PostURLError
    then show ?thesis
      using True
      by (simp add: end_game_def add_stars_def api_post_def emit_def posts_def is_post_def
            is_Exception_def)
  next
    case PostOtherError
    then show ?thesis
      using True
      by (simp add: end_game_def add_stars_def api_post_def emit_def posts_def is_post_def
            is_Exception_def)
  qed
qed

text \<open>
  Claim C8. \<^verbatim>\<open>end_game\<close> sends a reward request exactly when the stars earned are more
  than zero: the requests it adds to the trace are none, or the one request to
  \<^verbatim>\<open>stars/add\<close> whose amount is the stars earned and whose reason carries the count of
  correct answers and the count of rounds played.
\<close>

theorem reward_iff_stars:
  "posts (trace (snd (end_game g w))) =
     posts (trace w) @
       (if 0 < stars_earned g
        then [Http_Post ''stars/add'' (stars_earned g)
                (''Quiz game completed - '' @ py_str (correct_answers g) @ ''/''
                   @ py_str (total_questions g) @ '' correct'')]
        else [])"
proof -
  obtain es where e: "trace (snd (end_game g w)) =
          trace w @ Show_Summary (total_questions g) (correct_answers g)
                       (format_1f (accuracy g)) (score g) (stars_earned g)
            # (if 0 < stars_earned g
               then [Http_Post ''stars/add'' (stars_earned g) (reward_reason g)] else []) @ es"
     and p: "posts es = []"
    using end_game_trace [of g w] by blast
  have "posts (trace (snd (end_game g w))) =
          posts (trace w) @ posts (Show_Summary (total_questions g) (correct_answers g)
                       (format_1f (accuracy g)) (score g) (stars_earned g)
            # (if 0 < stars_earned g
               then [Http_Post ''stars/add'' (stars_earned g) (reward_reason g)] else [])) @ posts es"
    by (simp only: e posts_append append_Cons [symmetric])
  then show ?thesis
    by (simp add: p posts_simps is_post_def reward_reason_def)
qed

theorem reward_iff_stars_witness:
  "posts (trace (snd (end_game
      \<lparr>score = 150, total_questions = 12, correct_answers = 7, stars_earned = 15\<rparr> (typing []))))
     = [Http_Post ''stars/add'' 15 ''Quiz game completed - 7/12 correct'']
   \<and> posts (trace (snd (end_game
      \<lparr>score = 0, total_questions = 3, correct_answers = 0, stars_earned = 0\<rparr> (typing [])))) = []
   \<and> posts (trace (snd (end_game new_game (typing [])))) = []"
proof -
  have t: "posts (trace (typing [])) = []" by (simp add: typing_def posts_def)
  have s: "py_str 7 = ''7''" "py_str 12 = ''12''" by code_simp+
  show ?thesis
    using reward_iff_stars
            [of "\<lparr>score = 150, total_questions = 12, correct_answers = 7, stars_earned = 15\<rparr>"
                "typing []"]
          reward_iff_stars
            [of "\<lparr>score = 0, total_questions = 3, correct_answers = 0, stars_earned = 0\<rparr>"
                "typing []"]
          reward_iff_stars [of new_game "typing []"]
    by (simp add: t s new_game_def)
qed

text \<open>How \<^verbatim>\<open>end_game\<close> treats the replies to the reward request: a reply that refuses, or
  is no JSON object, ends in a warning; a request that fails leaves through
  \<^verbatim>\<open>sys.exit(1)\<close> inside the client, which \<^verbatim>\<open>except Exception\<close> does not catch.\<close>

lemma reward_request_failure_exits:
  assumes "0 < stars_earned g"
    and "post_reply w = PostHTTPError \<or> post_reply w = PostURLError
         \<or> post_reply w = PostOtherError"
  shows "fst (end_game g w) = Inl (SystemExit 1)"
    and "Warn_No_Award \<notin> set (drop (length (trace w)) (trace (snd (end_game g w))))"
    and "Say_Thanks \<notin> set (drop (length (trace w)) (trace (snd (end_game g w))))"
  using assms
  by (auto simp: end_game_def add_stars_def api_post_def emit_def is_Exception_def)

lemma reward_refused_is_warning:
  assumes "0 < stars_earned g" and "post_reply w = PostJson (PDict False b)"
  shows "end_game g w =
           (Inr (), emit [Show_Summary (total_questions g) (correct_answers g)
                       (format_1f (accuracy g)) (score g)
                            (stars_earned g),
                          Http_Post ''stars/add'' (stars_earned g) (reward_reason g),
                          Warn_No_Update, Say_Thanks] w)"
  using assms by (simp add: end_game_def add_stars_def api_post_def emit_def)

lemma reward_reply_not_object_is_warning:
  assumes "0 < stars_earned g" and "post_reply w = PostJson PNotDict"
  shows "end_game g w =
           (Inr (), emit [Show_Summary (total_questions g) (correct_answers g)
                       (format_1f (accuracy g)) (score g)
                            (stars_earned g),
                          Http_Post ''stars/add'' (stars_earned g) (reward_reason g),
                          Warn_No_Award, Say_Thanks] w)"
  using assms by (simp add: end_game_def add_stars_def api_post_def emit_def)

lemma start_passes_exit:
  assumes "\<not> interrupted w"
    and "start_body c d n g (snd (py_sleep (emit [Say_Starting] w))) = (Inl (SystemExit k), g1, w1)"
  shows "start c d n g w = (Inl (SystemExit k), g1, w1)"
  using assms by (simp add: start_def py_sleep_cases is_Exception_def)

text \<open>
  Claim C2 says that a failed reward submission is caught, reported as a warning with
  the summary, and never ends the process. The session below answers its one question
  correctly and the request then fails with \<^verbatim>\<open>URLError\<close>: the process ends with status 1,
  after the summary and the client's error line, with no warning and without the closing
  line of the summary.
\<close>

theorem reward_failure_exits_process:
  "main_game None None 10 (session [four_options] [Line ''3''] PostURLError) =
     (1, \<lparr>score = 20, total_questions = 1, correct_answers = 1, stars_earned = 2\<rparr>,
      \<lparr>inputs = [], sleeps = [], capacity = 1000, get_reply = GetJson (Some [four_options]),
       post_reply = PostURLError,
       trace = [Say_Starting, Say_Loading, Http_Get ''questions'' [(''limit'', ''10'')],
                Say_Loaded 1, Show_Score 0 0 0 0, Show_Question 1 ''Q'' [] [],
                Show_Difficulty 2, Show_Choices [''a'', ''b'', ''c'', ''d''],
                Ask (Choice_Prompt 4), Say_Correct ''c'' 20 2, Show_Summary 1 1 ''100.0'' 20 2,
                Http_Post ''stars/add'' 2 ''Quiz game completed - 1/1 correct'',
                Stderr_URL_Error]\<rparr>)"
  by code_simp

section \<open>Stopping after a wrong answer\<close>

lemma get_user_input_accept:
  assumes "inputs w = Line l # rest" "valid = [] \<or> lower (strip l) \<in> set valid"
  shows "get_user_input p valid w = (Inr (lower (strip l)), emit [Ask p] (w\<lparr>inputs := rest\<rparr>))"
  using assms by (auto simp: get_user_input_def input_loop_accept)

lemma get_user_input_asks:
  "\<exists>es. trace (snd (get_user_input p valid w)) = trace w @ Ask p # es"
proof -
  have "\<exists>es. snd (snd (input_loop p valid evs)) = Ask p # es" for evs
  proof (cases evs)
    case Nil
    then show ?thesis by simp
  next
    case (Cons ev rest)
    then show ?thesis
      by (cases ev) (auto simp: Let_def split: prod.splits)
  qed
  then obtain es where "snd (snd (input_loop p valid (inputs w))) = Ask p # es" by blast
  then show ?thesis
    by (cases "input_loop p valid (inputs w)") (simp add: get_user_input_def emit_def)
qed

lemma play_questions_stop:
  assumes "play_round q g w = (Inr False, g1, w1)" "i < n"
    and "get_user_input Continue_Prompt continue_choices w1 = (Inr c, w2)"
    and "c = ''n'' \<or> c = ''no''"
  shows "play_questions i n (q # qs) g w = (Inr (), g1, w2)"
  using assms by auto

text \<open>
  Claim C6. When a round that is not the last of the enumeration is answered wrongly,
  the user is asked whether to continue; on the answer \<open>n\<close> or \<open>no\<close> the loop ends and
  \<^verbatim>\<open>end_game\<close> runs on the counters of that round: the questions that remain are neither
  shown nor counted, the wrong round counts as played and adds no score and no stars, the
  summary shows these counters, and the reward request follows it when stars were earned.
\<close>

theorem stop_after_wrong_answer:
  assumes "play_round q g w = (Inr False, g1, w1)"
    and "qs \<noteq> []" "n = i + length qs"
    and "get_user_input Continue_Prompt continue_choices w1 = (Inr c, w2)"
    and "c = ''n'' \<or> c = ''no''"
  shows "rounds_then_end i n (q # qs) g w = (fst (end_game g1 w2), g1, snd (end_game g1 w2))
       \<and> total_questions g1 = total_questions g + 1
       \<and> score g1 = score g \<and> stars_earned g1 = stars_earned g
       \<and> correct_answers g1 = correct_answers g
       \<and> (\<exists>es. trace w2 = trace w1 @ Ask Continue_Prompt # es)
       \<and> (\<exists>es. trace (snd (snd (rounds_then_end i n (q # qs) g w))) =
                 trace w2 @ Show_Summary (total_questions g1) (correct_answers g1)
                       (format_1f (accuracy g1)) (score g1)
                       (stars_earned g1)
                   # (if 0 < stars_earned g1
                      then [Http_Post ''stars/add'' (stars_earned g1) (reward_reason g1)]
                      else []) @ es
               \<and> posts es = [])"
proof -
  have i: "i < n" using assms(2,3) by (cases qs) auto
  have p: "play_questions i n (q # qs) g w = (Inr (), g1, w2)"
    using play_questions_stop [OF assms(1) i assms(4,5)] .
  have r: "rounds_then_end i n (q # qs) g w = (fst (end_game g1 w2), g1, snd (end_game g1 w2))"
    unfolding rounds_then_end_def p by (simp split: prod.splits)
  obtain d where "g1 = scored d False g"
    using play_round_completed [OF assms(1)] by blast
  then have c: "total_questions g1 = total_questions g + 1" "score g1 = score g"
    "stars_earned g1 = stars_earned g" "correct_answers g1 = correct_answers g"
    by (simp_all add: scored_def)
  have a: "\<exists>es. trace w2 = trace w1 @ Ask Continue_Prompt # es"
    using get_user_input_asks [of Continue_Prompt continue_choices w1] assms(4) by simp
  show ?thesis
    using end_game_trace [of g1 w2] c a by (simp add: r)
qed

theorem stop_after_wrong_answer_witness:
  "play_round four_options new_game (typing [''1'', ''maybe'', '' No '']) =
     (Inr False, \<lparr>score = 0, total_questions = 1, correct_answers = 0, stars_earned = 0\<rparr>,
      \<lparr>inputs = [Line ''maybe'', Line '' No ''], sleeps = [], capacity = 1000, get_reply = GetJson None,
       post_reply = PostJson PNotDict,
       trace = [Show_Score 0 0 0 0, Show_Question 1 ''Q'' [] [], Show_Difficulty 2,
                Show_Choices [''a'', ''b'', ''c'', ''d''], Ask (Choice_Prompt 4),
                Say_Incorrect ''a'' ''c'']\<rparr>)
   \<and> rounds_then_end 1 2 [four_options, four_options] new_game
         (typing [''1'', ''maybe'', '' No '']) =
     (Inr (), \<lparr>score = 0, total_questions = 1, correct_answers = 0, stars_earned = 0\<rparr>,
      \<lparr>inputs = [], sleeps = [], capacity = 1000, get_reply = GetJson None, post_reply = PostJson PNotDict,
       trace = [Show_Score 0 0 0 0, Show_Question 1 ''Q'' [] [], Show_Difficulty 2,
                Show_Choices [''a'', ''b'', ''c'', ''d''], Ask (Choice_Prompt 4),
                Say_Incorrect ''a'' ''c'', Ask Continue_Prompt,
                Say_Please_Enter [''y'', ''n'', ''yes'', ''no''], Ask Continue_Prompt,
                Show_Summary 1 0 ''0.0'' 0 0, Say_Thanks]\<rparr>)"
proof -
  let ?g1 = "\<lparr>score = 0, total_questions = 1, correct_answers = 0, stars_earned = 0\<rparr>"
  let ?w1 = "\<lparr>inputs = [Line ''maybe'', Line '' No ''], sleeps = [], capacity = 1000, get_reply = GetJson None,
       post_reply = PostJson PNotDict,
       trace = [Show_Score 0 0 0 0, Show_Question 1 ''Q'' [] [], Show_Difficulty 2,
                Show_Choices [''a'', ''b'', ''c'', ''d''], Ask (Choice_Prompt 4),
                Say_Incorrect ''a'' ''c'']\<rparr>"
  let ?w2 = "\<lparr>inputs = [], sleeps = [], capacity = 1000, get_reply = GetJson None,
       post_reply = PostJson PNotDict,
       trace = [Show_Score 0 0 0 0, Show_Question 1 ''Q'' [] [], Show_Difficulty 2,
                Show_Choices [''a'', ''b'', ''c'', ''d''], Ask (Choice_Prompt 4),
                Say_Incorrect ''a'' ''c'', Ask Continue_Prompt,
                Say_Please_Enter [''y'', ''n'', ''yes'', ''no''], Ask Continue_Prompt]\<rparr>"
  have a: "play_round four_options new_game (typing [''1'', ''maybe'', '' No ''])
           = (Inr False, ?g1, ?w1)"
    by code_simp
  have b: "[four_options] \<noteq> []" by simp
  have c: "(2::nat) = 1 + length [four_options]" by simp
  have d: "get_user_input Continue_Prompt continue_choices ?w1 = (Inr ''no'', ?w2)"
    by code_simp
  have e: "''no'' = ''n'' \<or> ''no'' = ''no''" by simp
  have g: "end_game ?g1 ?w2 =
     (Inr (), \<lparr>inputs = [], sleeps = [], capacity = 1000, get_reply = GetJson None, post_reply = PostJson PNotDict,
       trace = [Show_Score 0 0 0 0, Show_Question 1 ''Q'' [] [], Show_Difficulty 2,
                Show_Choices [''a'', ''b'', ''c'', ''d''], Ask (Choice_Prompt 4),
                Say_Incorrect ''a'' ''c'', Ask Continue_Prompt,
                Say_Please_Enter [''y'', ''n'', ''yes'', ''no''], Ask Continue_Prompt,
                Show_Summary 1 0 ''0.0'' 0 0, Say_Thanks]\<rparr>)"
    by code_simp
  show ?thesis
    using stop_after_wrong_answer [OF a b c d e] a
    by (simp add: g)
qed

section \<open>An empty batch of questions\<close>

lemma interrupted_trace [simp]: "interrupted (w\<lparr>trace := t\<rparr>) = interrupted w"
  by (simp add: interrupted_def)

text \<open>
  Claim C7. When the reply to the request for questions has no \<^verbatim>\<open>questions\<close> or an empty
  list of them, the game says that no questions are available and returns: the process
  ends with status 0, the counters are those of a new game, no question is shown and no
  reward request is made.
\<close>

theorem no_questions_no_session:
  assumes "get_reply w = GetJson None \<or> get_reply w = GetJson (Some [])"
    and "\<not> interrupted w"
  shows "main_game category dif num w =
           (0, new_game,
            (emit [Say_Starting, Say_Loading,
                   Http_Get ''questions'' (question_params category num dif),
                   Say_No_Questions] w)\<lparr>sleeps := tl (sleeps w)\<rparr>)"
  using assms
  by (auto simp: main_game_def start_def start_body_def get_questions_def api_get_def
        py_sleep_cases emit_def Let_def)

theorem no_questions_no_session_witness:
  "get_reply (typing []) = GetJson None \<and> \<not> interrupted (typing [])
   \<and> main_game None None 10 (typing []) =
       (0, \<lparr>score = 0, total_questions = 0, correct_answers = 0, stars_earned = 0\<rparr>,
        \<lparr>inputs = [], sleeps = [], capacity = 1000, get_reply = GetJson None, post_reply = PostJson PNotDict,
         trace = [Say_Starting, Say_Loading, Http_Get ''questions'' [(''limit'', ''10'')],
                  Say_No_Questions]\<rparr>)"
proof -
  have a: "get_reply (typing []) = GetJson None \<or> get_reply (typing []) = GetJson (Some [])"
    by (simp add: typing_def)
  have b: "\<not> interrupted (typing [])" by (simp add: interrupted_def typing_def)
  have p: "question_params None 10 None = [(''limit'', ''10'')]" by code_simp
  show ?thesis
    using no_questions_no_session [OF a b, of None None 10] b
    by (simp add: p) (simp add: typing_def emit_def new_game_def)
qed

section \<open>Ctrl+C\<close>

text \<open>Ctrl+C during a pause reaches the handler of \<^verbatim>\<open>start\<close>, which prints the final
  results through \<^verbatim>\<open>end_game\<close>; Ctrl+C at a prompt is caught by \<^verbatim>\<open>get_user_input\<close>, which
  leaves through \<^verbatim>\<open>sys.exit(0)\<close>.\<close>

lemma prompt_interrupt_exits:
  assumes "inputs w = Interrupt # rest"
  shows "get_user_input p valid w
         = (Inl (SystemExit 0), emit [Ask p, Say_Interrupted_By_User] (w\<lparr>inputs := rest\<rparr>))"
  using assms by (simp add: get_user_input_def)

lemma pause_interrupt_reaches_end_game:
  assumes "\<not> interrupted w"
    and "start_body c d n g (snd (py_sleep (emit [Say_Starting] w)))
           = (Inl KeyboardInterrupt, g1, w1)"
  shows "start c d n g w =
           (fst (end_game g1 (emit [Say_Interrupted_Final] w1)), g1,
            snd (end_game g1 (emit [Say_Interrupted_Final] w1)))"
  using assms by (simp add: start_def py_sleep_cases split: prod.splits)

lemma interrupt_in_pause_example:
  "main_game None None 10
     ((session [four_options, four_options] [Line ''3''] (PostJson (PDict True None)))
        \<lparr>sleeps := [False, False, True]\<rparr>) =
     (0, \<lparr>score = 20, total_questions = 1, correct_answers = 1, stars_earned = 2\<rparr>,
      \<lparr>inputs = [], sleeps = [], capacity = 1000, get_reply = GetJson (Some [four_options, four_options]),
       post_reply = PostJson (PDict True None),
       trace = [Say_Starting, Say_Loading, Http_Get ''questions'' [(''limit'', ''10'')],
                Say_Loaded 2, Show_Score 0 0 0 0, Show_Question 1 ''Q'' [] [],
                Show_Difficulty 2, Show_Choices [''a'', ''b'', ''c'', ''d''],
                Ask (Choice_Prompt 4), Say_Correct ''c'' 20 2, Say_Interrupted_Final,
                Show_Summary 1 1 ''100.0'' 20 2,
                Http_Post ''stars/add'' 2 ''Quiz game completed - 1/1 correct'',
                Say_New_Balance ''Unknown'', Say_Thanks]\<rparr>)"
  by code_simp

text \<open>
  Claim C3 says that a session interrupted while it waits for a selection still reaches
  the end of the session: summary, and reward request for the stars earned so far. The
  session below answers the first of two questions correctly and is interrupted at the
  prompt of the second: the process ends with status 0 and two stars earned, with no
  summary and no reward request.
\<close>

theorem interrupt_at_prompt_skips_end_game:
  "main_game None None 10
     (session [four_options, four_options] [Line ''3'', Interrupt] (PostJson (PDict True None))) =
     (0, \<lparr>score = 20, total_questions = 1, correct_answers = 1, stars_earned = 2\<rparr>,
      \<lparr>inputs = [], sleeps = [], capacity = 1000, get_reply = GetJson (Some [four_options, four_options]),
       post_reply = PostJson (PDict True None),
       trace = [Say_Starting, Say_Loading, Http_Get ''questions'' [(''limit'', ''10'')],
                Say_Loaded 2, Show_Score 0 0 0 0, Show_Question 1 ''Q'' [] [],
                Show_Difficulty 2, Show_Choices [''a'', ''b'', ''c'', ''d''],
                Ask (Choice_Prompt 4), Say_Correct ''c'' 20 2,
                Show_Score 20 1 1 2, Show_Question 2 ''Q'' [] [],
                Show_Difficulty 2, Show_Choices [''a'', ''b'', ''c'', ''d''],
                Ask (Choice_Prompt 4), Say_Interrupted_By_User]\<rparr>)"
  by code_simp


section \<open>The accuracy of the summary\<close>















section \<open>A whole session\<close>

text \<open>Three questions of difficulties 2, 3 (as text) and 1, answered right, wrong and
  right.\<close>

lemma specification_scenario:
  "main_game None None 3
     (session [four_options, four_options\<lparr>difficulty := DStr ''3''\<rparr>,
               four_options\<lparr>difficulty := DInt 1\<rparr>]
        [Line ''3'', Line ''1'', Line ''y'', Line ''3''] (PostJson (PDict True (Some ''7'')))) =
     (0, \<lparr>score = 30, total_questions = 3, correct_answers = 2, stars_earned = 3\<rparr>,
      \<lparr>inputs = [], sleeps = [], capacity = 1000,
       get_reply = GetJson (Some [four_options, four_options\<lparr>difficulty := DStr ''3''\<rparr>,
                                 four_options\<lparr>difficulty := DInt 1\<rparr>]),
       post_reply = PostJson (PDict True (Some ''7'')),
       trace = [Say_Starting, Say_Loading, Http_Get ''questions'' [(''limit'', ''3'')],
                Say_Loaded 3, Show_Score 0 0 0 0, Show_Question 1 ''Q'' [] [],
                Show_Difficulty 2, Show_Choices [''a'', ''b'', ''c'', ''d''],
                Ask (Choice_Prompt 4), Say_Correct ''c'' 20 2,
                Show_Score 20 1 1 2, Show_Question 2 ''Q'' [] [],
                Show_Difficulty 3, Show_Choices [''a'', ''b'', ''c'', ''d''],
                Ask (Choice_Prompt 4), Say_Incorrect ''a'' ''c'', Ask Continue_Prompt,
                Show_Score 20 1 2 2, Show_Question 3 ''Q'' [] [],
                Show_Difficulty 1, Show_Choices [''a'', ''b'', ''c'', ''d''],
                Ask (Choice_Prompt 4), Say_Correct ''c'' 10 1,
                Show_Summary 3 2 ''66.7'' 30 3,
                Http_Post ''stars/add'' 3 ''Quiz game completed - 2/3 correct'',
                Say_New_Balance ''7'', Say_Thanks]\<rparr>)"
  by code_simp

text \<open>A difficulty that is no index, or asks for more stars than fit in memory, ends
  the round before the prompt: the game reports an error and ends without a summary.\<close>

lemma difficulty_beyond_index_limit:
  "play_round (four_options\<lparr>difficulty := DInt (2 ^ 63)\<rparr>) new_game (typing [''3'']) =
     (Inl OverflowError, new_game,
      \<lparr>inputs = [Line ''3''], sleeps = [], capacity = 1000, get_reply = GetJson None,
       post_reply = PostJson PNotDict,
       trace = [Show_Score 0 0 0 0, Show_Question 1 ''Q'' [] []]\<rparr>)"
  by code_simp

lemma difficulty_beyond_string_length:
  "play_round (four_options\<lparr>difficulty := DInt (2 ^ 62)\<rparr>) new_game (typing [''3'']) =
     (Inl OverflowError, new_game,
      \<lparr>inputs = [Line ''3''], sleeps = [], capacity = 1000, get_reply = GetJson None,
       post_reply = PostJson PNotDict,
       trace = [Show_Score 0 0 0 0, Show_Question 1 ''Q'' [] []]\<rparr>)"
  by code_simp

lemma difficulty_beyond_memory:
  "play_round (four_options\<lparr>difficulty := DInt 5000\<rparr>) new_game (typing [''3'']) =
     (Inl MemoryError, new_game,
      \<lparr>inputs = [Line ''3''], sleeps = [], capacity = 1000, get_reply = GetJson None,
       post_reply = PostJson PNotDict,
       trace = [Show_Score 0 0 0 0, Show_Question 1 ''Q'' [] []]\<rparr>)"
  by code_simp

end
